theory Spec2Isabelle
  imports Complex_Main "HOL-Library.AList" "HOL-Library.Sublist"
begin

section \<open>Column codec\<close>

text \<open>
  \<^verbatim>\<open>colnum_to_excel_col\<close> of \<^verbatim>\<open>function_app.py\<close>: the loop runs while
  \<^verbatim>\<open>col_num >= 0\<close>, prepends the letter for \<^verbatim>\<open>col_num % 26\<close> and continues
  with \<^verbatim>\<open>col_num // 26 - 1\<close>. The accumulator is the string built so far.
\<close>

function colnum_loop :: "int \<Rightarrow> string \<Rightarrow> string" where
  "colnum_loop col_num result =
     (if col_num \<ge> 0
      then colnum_loop (col_num div 26 - 1) (char_of (col_num mod 26 + 65) # result)
      else result)"
  by pat_completeness auto
termination
  by (relation "measure (\<lambda>(c, r). nat (c + 1))") auto

definition colnum_to_excel_col :: "int \<Rightarrow> string" where
  "colnum_to_excel_col col_num = colnum_loop col_num []"


text \<open>
  The reference decoding of bijective base 26, after the specification: the digits are
  the letters \<^verbatim>\<open>A\<close> to \<^verbatim>\<open>Z\<close> with the values 1 to 26 (there is no digit zero), weighted by
  powers of 26; a string with any other character has no value. The zero-based index
  of a string that is not empty is its value less one.
\<close>

definition is_upper :: "char \<Rightarrow> bool" where
  "is_upper c = (65 \<le> (of_char c :: int) \<and> (of_char c :: int) \<le> 90)"

definition letter_digit :: "char \<Rightarrow> int option" where
  "letter_digit c = (if is_upper c then Some (of_char c - 64) else None)"

fun bijective26 :: "int \<Rightarrow> string \<Rightarrow> int option" where
  "bijective26 acc [] = Some acc"
| "bijective26 acc (c # cs) =
     (case letter_digit c of None \<Rightarrow> None | Some d \<Rightarrow> bijective26 (acc * 26 + d) cs)"

definition excel_col_to_colnum :: "string \<Rightarrow> int option" where
  "excel_col_to_colnum s =
     (case s of [] \<Rightarrow> None | _ # _ \<Rightarrow> map_option (\<lambda>v. v - 1) (bijective26 0 s))"

text \<open>
  The weighted sum of the letters' values, for the proofs about strings that consist
  of letters only.
\<close>

definition letters_val :: "string \<Rightarrow> int" where
  "letters_val s = foldl (\<lambda>acc c. acc * 26 + (of_char c - 64)) 0 s"

section \<open>Python values and errors\<close>

text \<open>
  The exceptions the modelled code can raise. A failing computation is \<open>Inl\<close> of the
  exception, a successful one \<open>Inr\<close> of its value.
\<close>

datatype py_error = KeyError | ValueError | OverflowError | ParseError

subsection \<open>Text\<close>

text \<open>
  A character of a Python \<^verbatim>\<open>str\<close> as far as \<^verbatim>\<open>int\<close> tells characters apart: a
  character below 256 (ASCII and Latin-1), or a code point from 256 on together with what
  the interpreter's Unicode database says of it: a decimal digit with its value, white
  space, or anything else.
\<close>

datatype category = Decimal nat | Space | Other

datatype pychar = Char8 char | Uni nat category

definition ascii :: "string \<Rightarrow> pychar list" where
  "ascii s = map Char8 s"

subsection \<open>Numbers\<close>

text \<open>
  A numeric cell: a finite number, given by its exact value, within the range of a
  64-bit integer. What the cast does with a number outside this range depends on the
  dtype that pandas gives the column and on the platform; such cells are not modelled,
  nor are cells that hold dates or truth values.
\<close>

typedef num64 = "{q :: rat. - (2 ^ 63) \<le> q \<and> q < 2 ^ 63}"
  by (rule exI [of _ 0]) simp

text \<open>
  A cell of the table \<^verbatim>\<open>pd.read_excel\<close> delivers: blank (\<^verbatim>\<open>NaN\<close>), text, or a number.
\<close>

datatype cell = NaN | Str "pychar list" | Num num64

definition notna :: "cell \<Rightarrow> bool" where
  "notna c = (c \<noteq> NaN)"

subsection \<open>Python's \<^verbatim>\<open>int\<close> on text\<close>

text \<open>
  \<^verbatim>\<open>int(s)\<close> first rewrites the characters from 127 on: white space (below 256, the
  next-line and no-break-space characters) becomes a blank, a decimal digit its ASCII
  digit, anything else a question mark. The ASCII text is then read as by
  \<^verbatim>\<open>PyLong_FromString\<close>: white space of the C locale is skipped at both ends, one sign
  may come first, then decimal digits, where single underscores may stand between digits.
  More than 4300 digits are refused (the default limit of the interpreter). Everything
  else raises \<^verbatim>\<open>ValueError\<close> (here \<open>None\<close>).
\<close>

definition latin1 :: "char \<Rightarrow> char" where
  "latin1 a =
     (if (of_char a :: nat) < 127 then a
      else if a = CHR 0x85 \<or> a = CHR 0xA0 then CHR 0x20
      else CHR ''?'')"

definition to_ascii :: "pychar \<Rightarrow> char" where
  "to_ascii c =
     (case c of
        Char8 a \<Rightarrow> latin1 a
      | Uni n k \<Rightarrow>
          if n < 256 then latin1 (char_of n)
          else (case k of
                  Decimal d \<Rightarrow> if d < 10 then char_of (48 + d) else CHR ''?''
                | Space \<Rightarrow> CHR 0x20
                | Other \<Rightarrow> CHR ''?''))"

definition is_space :: "char \<Rightarrow> bool" where
  "is_space c = (c \<in> set [CHR 0x09, CHR 0x0A, CHR 0x0B, CHR 0x0C, CHR 0x0D, CHR 0x20])"

definition is_digit :: "char \<Rightarrow> bool" where
  "is_digit c = (48 \<le> (of_char c :: int) \<and> (of_char c :: int) \<le> 57)"

definition digit_val :: "char \<Rightarrow> int" where
  "digit_val c = of_char c - 48"

definition strip :: "string \<Rightarrow> string" where
  "strip s = rev (dropWhile is_space (rev (dropWhile is_space s)))"

fun py_digits :: "int \<Rightarrow> string \<Rightarrow> int option" where
  "py_digits acc [] = Some acc"
| "py_digits acc (c # cs) =
     (if is_digit c then py_digits (acc * 10 + digit_val c) cs
      else if c = CHR ''_'' \<and> (case cs of [] \<Rightarrow> False | d # _ \<Rightarrow> is_digit d)
      then py_digits acc cs
      else None)"

definition py_unsigned :: "string \<Rightarrow> int option" where
  "py_unsigned s =
     (case s of
        [] \<Rightarrow> None
      | c # _ \<Rightarrow> if is_digit c \<and> length (filter is_digit s) \<le> 4300 then py_digits 0 s
                 else None)"

definition py_long :: "string \<Rightarrow> int option" where
  "py_long s =
     (case strip s of
        [] \<Rightarrow> None
      | c # cs \<Rightarrow>
          if c = CHR ''-'' then map_option uminus (py_unsigned cs)
          else if c = CHR ''+'' then py_unsigned cs
          else py_unsigned (c # cs))"

definition py_int :: "pychar list \<Rightarrow> int option" where
  "py_int s = py_long (map to_ascii s)"

subsection \<open>\<^verbatim>\<open>astype(int)\<close> on a cell\<close>

text \<open>
  The cast of the aggregated \<^verbatim>\<open>No.\<close> column to \<^verbatim>\<open>int\<close> (64 bits): a blank raises
  \<^verbatim>\<open>ValueError\<close>; text goes through \<^verbatim>\<open>int\<close> and raises \<^verbatim>\<open>OverflowError\<close> when the
  integer it denotes does not fit 64 bits; a number is cut towards zero.
\<close>

definition trunc :: "rat \<Rightarrow> int" where
  "trunc q = (if q < 0 then \<lceil>q\<rceil> else \<lfloor>q\<rfloor>)"

definition int64 :: "int \<Rightarrow> py_error + int" where
  "int64 n = (if - (2 ^ 63) \<le> n \<and> n < 2 ^ 63 then Inr n else Inl OverflowError)"

fun astype_int :: "cell \<Rightarrow> py_error + int" where
  "astype_int NaN = Inl ValueError"
| "astype_int (Str s) = (case py_int s of None \<Rightarrow> Inl ValueError | Some n \<Rightarrow> int64 n)"
| "astype_int (Num x) = Inr (trunc (Rep_num64 x))"

section \<open>Row melter\<close>

text \<open>
  One row of a sheet as read by \<^verbatim>\<open>pd.read_excel\<close>: the five columns the script uses.
  The question and answer columns hold text or are blank (\<open>None\<close>).
\<close>

record sheet_row =
  cls :: cell
  item :: cell
  no :: cell
  question :: "string option"
  answer :: "string option"

text \<open>A row of \<^verbatim>\<open>df_all\<close>: the sheet's row with the sheet name column attached.\<close>

record df_row =
  r_sheet :: string
  r_cls :: cell
  r_item :: cell
  r_no :: cell
  r_question :: "string option"
  r_answer :: "string option"

definition attach_sheet :: "string \<Rightarrow> sheet_row \<Rightarrow> df_row" where
  "attach_sheet name r =
     \<lparr>r_sheet = name, r_cls = cls r, r_item = item r, r_no = no r,
      r_question = question r, r_answer = answer r\<rparr>"

text \<open>
  \<^verbatim>\<open>df_all = pd.concat(df_list, ignore_index=True)\<close>: the sheets in workbook order, one
  after the other; the index of the result is the position in the concatenation.
  \<^verbatim>\<open>pd.concat\<close> raises \<^verbatim>\<open>ValueError\<close> on an empty list.
\<close>

definition df_all :: "(string \<times> sheet_row list) list \<Rightarrow> py_error + df_row list" where
  "df_all excel_file =
     (if excel_file = [] then Inl ValueError
      else Inr (concat (map (\<lambda>(sheet_name, df). map (attach_sheet sheet_name) df) excel_file)))"

text \<open>
  The row numbering the specification describes: the 1-based position of a row on its
  own sheet, offset by the one header row, starting afresh on every sheet.
\<close>

definition on_sheet_row_numbers :: "(string \<times> sheet_row list) list \<Rightarrow> int list" where
  "on_sheet_row_numbers excel_file =
     concat (map (\<lambda>(sheet_name, df). map (\<lambda>k. int k + 1 + 1) [0..<length df]) excel_file)"

text \<open>\<^verbatim>\<open>ffill\<close>: one pass that carries the last value seen.\<close>

fun ffill_from :: "cell \<Rightarrow> cell list \<Rightarrow> cell list" where
  "ffill_from prev [] = []"
| "ffill_from prev (x # xs) = (let v = (if notna x then x else prev) in v # ffill_from v xs)"

definition ffill :: "cell list \<Rightarrow> cell list" where
  "ffill xs = ffill_from NaN xs"

text \<open>
  The nearest value that is not blank, reading a column from its end upwards; \<open>prev\<close>
  when every cell is blank.
\<close>

definition last_valid :: "cell \<Rightarrow> cell list \<Rightarrow> cell" where
  "last_valid prev xs = (case filter notna xs of [] \<Rightarrow> prev | y # ys \<Rightarrow> last (y # ys))"

text \<open>\<^verbatim>\<open>cumsum\<close> of a boolean column.\<close>

fun cumsum_from :: "nat \<Rightarrow> bool list \<Rightarrow> nat list" where
  "cumsum_from acc [] = []"
| "cumsum_from acc (b # bs) = (let acc' = acc + (if b then 1 else 0) in acc' # cumsum_from acc' bs)"

definition cumsum :: "bool list \<Rightarrow> nat list" where
  "cumsum bs = cumsum_from 0 bs"

text \<open>
  The fill the specification describes: every sheet's column is filled on its own, so
  that no value passes from one sheet to the next.
\<close>

definition ffill_within_sheets ::
  "(sheet_row \<Rightarrow> cell) \<Rightarrow> (string \<times> sheet_row list) list \<Rightarrow> cell list" where
  "ffill_within_sheets col excel_file =
     concat (map (\<lambda>(sheet_name, df). ffill (map col df)) excel_file)"

text \<open>Every sheet that has rows has a value in the column on its first row.\<close>

definition first_rows_filled ::
  "(sheet_row \<Rightarrow> cell) \<Rightarrow> (string \<times> sheet_row list) list \<Rightarrow> bool" where
  "first_rows_filled col excel_file =
     (\<forall>(sheet_name, df) \<in> set excel_file. case df of [] \<Rightarrow> True | r # _ \<Rightarrow> notna (col r))"

text \<open>The number of rows with a classification value.\<close>

abbreviation cnt :: "df_row list \<Rightarrow> nat" where
  "cnt rows \<equiv> length (filter (\<lambda>r. notna (r_cls r)) rows)"

text \<open>A row of \<^verbatim>\<open>df_filled\<close> with its two added columns.\<close>

record filled_row =
  f_sheet :: string
  f_cls :: cell
  f_item :: cell
  f_no :: cell
  f_question :: "string option"
  f_answer :: "string option"
  f_grp :: nat
  f_original_row :: int

definition grp_ids :: "df_row list \<Rightarrow> nat list" where
  "grp_ids df = cumsum (map (\<lambda>r. notna (r_cls r)) df)"

definition df_filled :: "df_row list \<Rightarrow> filled_row list" where
  "df_filled df =
     (let c = ffill (map r_cls df); i = ffill (map r_item df); n = ffill (map r_no df);
          g = grp_ids df
      in map (\<lambda>k. \<lparr>f_sheet = r_sheet (df ! k), f_cls = c ! k, f_item = i ! k, f_no = n ! k,
                    f_question = r_question (df ! k), f_answer = r_answer (df ! k),
                    f_grp = g ! k, f_original_row = int k + 2\<rparr>) [0..<length df])"

text \<open>\<^verbatim>\<open>groupby("grp", sort=False)\<close>: the keys in the order of their first appearance.\<close>

fun first_seen :: "nat list \<Rightarrow> nat list" where
  "first_seen [] = []"
| "first_seen (k # ks) = k # first_seen (filter (\<lambda>x. x \<noteq> k) ks)"

definition groupby_grp :: "filled_row list \<Rightarrow> filled_row list list" where
  "groupby_grp fr = map (\<lambda>k. filter (\<lambda>r. f_grp r = k) fr) (first_seen (map f_grp fr))"

text \<open>The aggregate \<^verbatim>\<open>"first"\<close>: the first value of the group that is not blank.\<close>

definition agg_first :: "cell list \<Rightarrow> cell" where
  "agg_first xs = (case filter notna xs of [] \<Rightarrow> NaN | x # _ \<Rightarrow> x)"

definition agg_first_str :: "string list \<Rightarrow> string" where
  "agg_first_str xs = (case xs of [] \<Rightarrow> [] | x # _ \<Rightarrow> x)"

text \<open>\<^verbatim>\<open>"\n".join(s.dropna().astype(str))\<close>\<close>

fun join :: "string \<Rightarrow> string list \<Rightarrow> string" where
  "join sep [] = []"
| "join sep [x] = x"
| "join sep (x # y # ys) = x @ sep @ join sep (y # ys)"

definition dropna :: "string option list \<Rightarrow> string list" where
  "dropna xs = concat (map (\<lambda>x. case x of None \<Rightarrow> [] | Some s \<Rightarrow> [s]) xs)"

definition join_lines :: "string option list \<Rightarrow> string" where
  "join_lines s = join [CHR 0x0A] (dropna s)"

text \<open>A group after \<^verbatim>\<open>agg\<close>, before the cast of \<^verbatim>\<open>No.\<close>.\<close>

record agg_row =
  a_sheet :: string
  a_cls :: cell
  a_item :: cell
  a_no :: cell
  a_question :: string
  a_answer :: string
  a_original_row :: "int list"

definition agg :: "filled_row list \<Rightarrow> agg_row" where
  "agg g =
     \<lparr>a_sheet = agg_first_str (map f_sheet g),
      a_cls = agg_first (map f_cls g),
      a_item = agg_first (map f_item g),
      a_no = agg_first (map f_no g),
      a_question = join_lines (map f_question g),
      a_answer = join_lines (map f_answer g),
      a_original_row = map f_original_row g\<rparr>"

text \<open>A merge group: a row of the frame \<^verbatim>\<open>melt_merged_rows\<close> returns.\<close>

record merge_group =
  g_sheet :: string
  g_cls :: cell
  g_item :: cell
  g_no :: int
  g_question :: string
  g_answer :: string
  original_row :: "int list"

definition cast_no :: "agg_row \<Rightarrow> py_error + merge_group" where
  "cast_no a =
     (case astype_int (a_no a) of
        Inl e \<Rightarrow> Inl e
      | Inr n \<Rightarrow> Inr \<lparr>g_sheet = a_sheet a, g_cls = a_cls a, g_item = a_item a, g_no = n,
                       g_question = a_question a, g_answer = a_answer a,
                       original_row = a_original_row a\<rparr>)"

text \<open>\<^verbatim>\<open>astype({"No.": int})\<close> over the rows: the first failure aborts.\<close>

fun astype_rows :: "agg_row list \<Rightarrow> py_error + merge_group list" where
  "astype_rows [] = Inr []"
| "astype_rows (a # as) =
     (case cast_no a of
        Inl e \<Rightarrow> Inl e
      | Inr g \<Rightarrow> (case astype_rows as of Inl e \<Rightarrow> Inl e | Inr gs \<Rightarrow> Inr (g # gs)))"

text \<open>The frame after \<^verbatim>\<open>agg\<close> and \<^verbatim>\<open>reset_index\<close>: one row for each group.\<close>

definition agg_frame :: "df_row list \<Rightarrow> agg_row list" where
  "agg_frame df = map agg (groupby_grp (df_filled df))"

definition melt_merged_rows :: "df_row list \<Rightarrow> py_error + merge_group list" where
  "melt_merged_rows df = astype_rows (agg_frame df)"

text \<open>
  A table whose sequence numbers all resolve: the cast succeeds on the sequence number
  of every group.
\<close>

definition seq_numbers_resolve :: "df_row list \<Rightarrow> bool" where
  "seq_numbers_resolve df = list_all (\<lambda>a. \<not> isl (astype_int (a_no a))) (agg_frame df)"

text \<open>\<^verbatim>\<open>organized_df = melt_merged_rows(df_all)\<close>\<close>

definition organized_df :: "(string \<times> sheet_row list) list \<Rightarrow> py_error + merge_group list" where
  "organized_df excel_file =
     (case df_all excel_file of Inl e \<Rightarrow> Inl e | Inr df \<Rightarrow> melt_merged_rows df)"

section \<open>Image extraction\<close>

subsection \<open>String helpers\<close>

text \<open>\<^verbatim>\<open>s.split("/")[-1]\<close> and \<^verbatim>\<open>os.path.basename(s)\<close>: what follows the last slash.\<close>

definition last_segment :: "string \<Rightarrow> string" where
  "last_segment s = rev (takeWhile (\<lambda>c. c \<noteq> CHR ''/'') (rev s))"

text \<open>\<^verbatim>\<open>s.replace(".rels", "")\<close>: every occurrence is removed, scanning from the left.\<close>

fun remove_rels :: "string \<Rightarrow> string" where
  "remove_rels [] = []"
| "remove_rels (c # cs) =
     (if prefix ''.rels'' (c # cs) then remove_rels (drop 4 cs) else c # remove_rels cs)"

text \<open>\<^verbatim>\<open>str\<close> of an integer.\<close>

fun str_nat :: "nat \<Rightarrow> string" where
  "str_nat n = (if n < 10 then [char_of (48 + n)]
                else str_nat (n div 10) @ [char_of (48 + n mod 10)])"

declare str_nat.simps [simp del]

text \<open>The value of a string of decimal digits, used to invert \<^const>\<open>str_nat\<close>.\<close>

definition digits_val :: "string \<Rightarrow> nat" where
  "digits_val s = foldl (\<lambda>acc c. acc * 10 + (of_char c - 48)) 0 s"

definition py_str :: "int \<Rightarrow> string" where
  "py_str i = (if i < 0 then CHR ''-'' # str_nat (nat (- i)) else str_nat (nat i))"

subsection \<open>The package\<close>

text \<open>
  The parts of the archive as the script reads them. A part that is well-formed XML is
  given by what the three queries of the script find in it: the sheet elements of a
  workbook, the children of the root element, and the two-cell anchors of a drawing. A
  child of the root is a relationship with its three attributes, or an element without
  the attribute \<^verbatim>\<open>Type\<close>. A sheet element carries its relationship id and its name, a
  two-cell anchor the column and row of its \<^verbatim>\<open>from\<close> corner as integers and, if it holds
  a picture, the \<^verbatim>\<open>blip\<close> with its optional \<^verbatim>\<open>embed\<close> attribute. Any other part is not
  XML.
\<close>

record relationship =
  rel_Type :: string
  rel_Id :: string
  rel_Target :: string

record sheet_elem =
  sh_rid :: string
  sh_name :: string

record anchor =
  from_col :: int
  from_row :: int
  blip :: "string option option"

datatype element = Relationship relationship | Other_element

record xml =
  xml_sheets :: "sheet_elem list"
  xml_children :: "element list"
  xml_anchors :: "anchor list"

datatype part = Xml xml | Not_xml string

text \<open>The usual parts: a workbook, a relationship file, a drawing and a media file.\<close>

definition Workbook :: "sheet_elem list \<Rightarrow> part" where
  "Workbook sheets = Xml \<lparr>xml_sheets = sheets, xml_children = [Other_element], xml_anchors = []\<rparr>"

definition Relationships :: "relationship list \<Rightarrow> part" where
  "Relationships rels =
     Xml \<lparr>xml_sheets = [], xml_children = map Relationship rels, xml_anchors = []\<rparr>"

definition Drawing :: "anchor list \<Rightarrow> part" where
  "Drawing anchors =
     Xml \<lparr>xml_sheets = [], xml_children = map (\<lambda>a. Other_element) anchors,
          xml_anchors = anchors\<rparr>"

definition Media :: "string \<Rightarrow> part" where
  "Media bytes = Not_xml bytes"

type_synonym archive = "(string \<times> part) list"

definition namelist :: "archive \<Rightarrow> string list" where
  "namelist z = map fst z"

text \<open>
  \<^verbatim>\<open>z.open(name)\<close> followed by \<^verbatim>\<open>ET.parse\<close>: a missing entry raises \<^verbatim>\<open>KeyError\<close>, a part that
  is not XML does not parse. Of two entries of one name the later is read.
\<close>

definition z_open :: "archive \<Rightarrow> string \<Rightarrow> py_error + part" where
  "z_open z name = (case map_of (rev z) name of None \<Rightarrow> Inl KeyError | Some p \<Rightarrow> Inr p)"

definition bind :: "py_error + 'a \<Rightarrow> ('a \<Rightarrow> py_error + 'b) \<Rightarrow> py_error + 'b" where
  "bind m f = (case m of Inl e \<Rightarrow> Inl e | Inr x \<Rightarrow> f x)"

definition parse :: "archive \<Rightarrow> string \<Rightarrow> py_error + xml" where
  "parse z name =
     bind (z_open z name) (\<lambda>p. case p of Xml x \<Rightarrow> Inr x | Not_xml _ \<Rightarrow> Inl ParseError)"

definition parse_workbook :: "archive \<Rightarrow> string \<Rightarrow> py_error + sheet_elem list" where
  "parse_workbook z name = bind (parse z name) (\<lambda>x. Inr (xml_sheets x))"

definition parse_drawing :: "archive \<Rightarrow> string \<Rightarrow> py_error + anchor list" where
  "parse_drawing z name = bind (parse z name) (\<lambda>x. Inr (xml_anchors x))"

text \<open>
  \<^verbatim>\<open>for rel in tree.getroot(): if rel.attrib["Type"].endswith(...): ...\<close>: the loop over
  the children of the root. Reading \<^verbatim>\<open>Type\<close> from an element that has none raises
  \<^verbatim>\<open>KeyError\<close>.
\<close>

fun rels_loop :: "(relationship \<Rightarrow> 'd \<Rightarrow> 'd) \<Rightarrow> element list \<Rightarrow> 'd \<Rightarrow> py_error + 'd" where
  "rels_loop step [] d = Inr d"
| "rels_loop step (Other_element # es) d = Inl KeyError"
| "rels_loop step (Relationship rel # es) d = rels_loop step es (step rel d)"

subsection \<open>The four tables\<close>

text \<open>
  A Python \<^verbatim>\<open>dict\<close> keeps its keys in insertion order and an assignment to a key already
  present replaces the value in place: an association list under \<^const>\<open>AList.update\<close>.
\<close>

type_synonym ('k, 'v) dict = "('k \<times> 'v) list"

definition sheet_id_to_name :: "sheet_elem list \<Rightarrow> (string, string) dict" where
  "sheet_id_to_name sheets = fold (\<lambda>sheet d. AList.update (sh_rid sheet) (sh_name sheet) d) sheets []"

definition rId_to_sheet_file :: "element list \<Rightarrow> py_error + (string, string) dict" where
  "rId_to_sheet_file rels =
     rels_loop (\<lambda>rel d. if suffix ''/worksheet'' (rel_Type rel)
                         then AList.update (rel_Id rel) (last_segment (rel_Target rel)) d else d)
          rels []"

definition is_sheet_rels :: "string \<Rightarrow> bool" where
  "is_sheet_rels f = (prefix ''xl/worksheets/_rels/'' f \<and> suffix ''.xml.rels'' f)"

definition is_drawing_rels :: "string \<Rightarrow> bool" where
  "is_drawing_rels f = (prefix ''xl/drawings/_rels/'' f \<and> suffix ''.xml.rels'' f)"

definition is_drawing_xml :: "string \<Rightarrow> bool" where
  "is_drawing_xml f = (prefix ''xl/drawings/drawing'' f \<and> suffix ''.xml'' f)"

fun sheet_to_drawing_loop ::
  "archive \<Rightarrow> string list \<Rightarrow> (string, string) dict \<Rightarrow> py_error + (string, string) dict" where
  "sheet_to_drawing_loop z [] d = Inr d"
| "sheet_to_drawing_loop z (f # fs) d =
     (if is_sheet_rels f
      then bind (parse z f) (\<lambda>x.
           bind (rels_loop (\<lambda>rel d. if suffix ''/drawing'' (rel_Type rel)
                                      then AList.update (remove_rels (last_segment f))
                                             (last_segment (rel_Target rel)) d
                                      else d) (xml_children x) d)
                (sheet_to_drawing_loop z fs))
      else sheet_to_drawing_loop z fs d)"

definition sheet_to_drawing :: "archive \<Rightarrow> py_error + (string, string) dict" where
  "sheet_to_drawing z = sheet_to_drawing_loop z (namelist z) []"

fun drawing_to_rId_image_loop ::
  "archive \<Rightarrow> string list \<Rightarrow> (string, (string, string) dict) dict
     \<Rightarrow> py_error + (string, (string, string) dict) dict" where
  "drawing_to_rId_image_loop z [] d = Inr d"
| "drawing_to_rId_image_loop z (f # fs) d =
     (if is_drawing_rels f
      then bind (parse z f) (\<lambda>x.
           bind (rels_loop (\<lambda>rel t. if suffix ''/image'' (rel_Type rel)
                                      then AList.update (rel_Id rel)
                                             (last_segment (rel_Target rel)) t
                                      else t) (xml_children x) [])
                (\<lambda>t. drawing_to_rId_image_loop z fs
                        (AList.update (remove_rels (last_segment f)) t d)))
      else drawing_to_rId_image_loop z fs d)"

definition drawing_to_rId_image :: "archive \<Rightarrow> py_error + (string, (string, string) dict) dict" where
  "drawing_to_rId_image z = drawing_to_rId_image_loop z (namelist z) []"

subsection \<open>The scan of the drawings\<close>

text \<open>
  \<^verbatim>\<open>next((sheet_id_to_name[rId] for rId, sheet_file in rId_to_sheet_file.items()
        if sheet_to_drawing.get(sheet_file) == drawing_name), None)\<close>:
  the first relationship whose sheet file leads to the drawing decides; its id is
  looked up with \<^verbatim>\<open>[]\<close>, which raises \<^verbatim>\<open>KeyError\<close> on a missing key.
\<close>

fun next_sheet_name ::
  "(string, string) dict \<Rightarrow> (string, string) dict \<Rightarrow> (string, string) dict \<Rightarrow> string
     \<Rightarrow> py_error + string option" where
  "next_sheet_name id_to_name [] s_to_d drawing_name = Inr None"
| "next_sheet_name id_to_name ((rId, sheet_file) # items) s_to_d drawing_name =
     (if map_of s_to_d sheet_file = Some drawing_name
      then (case map_of id_to_name rId of None \<Rightarrow> Inl KeyError | Some name \<Rightarrow> Inr (Some name))
      else next_sheet_name id_to_name items s_to_d drawing_name)"

text \<open>
  What the scan leaves behind: the names of the files written to the image directory,
  in order, and \<^verbatim>\<open>image_map\<close>, from (sheet name, row) to the saved paths. The writing
  itself and its failures belong to the file system and are not modelled; the saved
  path is the directory, a slash and the name, as it is for a name without a slash.
\<close>

record registry =
  saved :: "string list"
  image_map :: "(string \<times> int, string list) dict"

definition cell_name :: "int \<Rightarrow> int \<Rightarrow> string" where
  "cell_name col row = colnum_to_excel_col col @ py_str (row + 1)"

definition save_name :: "string \<Rightarrow> string \<Rightarrow> string \<Rightarrow> string" where
  "save_name sheet_name cell image_file = sheet_name @ ''_'' @ cell @ ''_'' @ image_file"

definition save_path :: "string \<Rightarrow> string" where
  "save_path name = ''json_output/image/'' @ name"

text \<open>\<^verbatim>\<open>image_map.setdefault(key, []).append(path)\<close>\<close>

definition setdefault_append :: "'k \<Rightarrow> 'v \<Rightarrow> ('k, 'v list) dict \<Rightarrow> ('k, 'v list) dict" where
  "setdefault_append k v d =
     (case map_of d k of None \<Rightarrow> d @ [(k, [v])] | Some vs \<Rightarrow> AList.update k (vs @ [v]) d)"

text \<open>\<^verbatim>\<open>drawing_to_rId_image.get(drawing_name, {}).get(rId)\<close>\<close>

definition image_file_of ::
  "(string, (string, string) dict) dict \<Rightarrow> string \<Rightarrow> string option \<Rightarrow> string option" where
  "image_file_of d_to_r drawing_name rId =
     (case rId of None \<Rightarrow> None
      | Some i \<Rightarrow> (case map_of d_to_r drawing_name of None \<Rightarrow> None | Some t \<Rightarrow> map_of t i))"

definition do_anchor ::
  "string list \<Rightarrow> (string, (string, string) dict) dict \<Rightarrow> string \<Rightarrow> string \<Rightarrow> registry \<Rightarrow> anchor
     \<Rightarrow> registry" where
  "do_anchor names d_to_r drawing_name sheet_name reg a =
     (case blip a of
        None \<Rightarrow> reg
      | Some rId \<Rightarrow>
          (case image_file_of d_to_r drawing_name rId of
             None \<Rightarrow> reg
           | Some image_file \<Rightarrow>
               if image_file \<noteq> [] \<and> (''xl/media/'' @ image_file) \<in> set names
               then let name = save_name sheet_name (cell_name (from_col a) (from_row a)) image_file
                    in \<lparr>saved = saved reg @ [name],
                        image_map = setdefault_append (sheet_name, from_row a + 1)
                                      (save_path name) (image_map reg)\<rparr>
               else reg))"

definition do_drawing ::
  "archive \<Rightarrow> (string, string) dict \<Rightarrow> (string, string) dict \<Rightarrow> (string, string) dict
     \<Rightarrow> (string, (string, string) dict) dict \<Rightarrow> registry \<Rightarrow> string \<Rightarrow> py_error + registry" where
  "do_drawing z id_to_name r_to_s s_to_d d_to_r reg drawing_xml =
     (let drawing_name = last_segment drawing_xml in
      bind (next_sheet_name id_to_name r_to_s s_to_d drawing_name) (\<lambda>sheet_name.
        case sheet_name of
          None \<Rightarrow> Inr reg
        | Some name \<Rightarrow>
            if name = [] then Inr reg
            else bind (parse_drawing z drawing_xml) (\<lambda>anchors.
                   Inr (fold (\<lambda>a reg. do_anchor (namelist z) d_to_r drawing_name name reg a)
                          anchors reg))))"

fun do_drawings ::
  "archive \<Rightarrow> (string, string) dict \<Rightarrow> (string, string) dict \<Rightarrow> (string, string) dict
     \<Rightarrow> (string, (string, string) dict) dict \<Rightarrow> string list \<Rightarrow> registry \<Rightarrow> py_error + registry" where
  "do_drawings z id_to_name r_to_s s_to_d d_to_r [] reg = Inr reg"
| "do_drawings z id_to_name r_to_s s_to_d d_to_r (f # fs) reg =
     bind (do_drawing z id_to_name r_to_s s_to_d d_to_r reg f)
          (do_drawings z id_to_name r_to_s s_to_d d_to_r fs)"

definition extract_images :: "archive \<Rightarrow> py_error + registry" where
  "extract_images z =
     bind (parse_workbook z ''xl/workbook.xml'') (\<lambda>sheets.
     bind (parse z ''xl/_rels/workbook.xml.rels'') (\<lambda>x.
     bind (rId_to_sheet_file (xml_children x)) (\<lambda>r_to_s.
     bind (sheet_to_drawing z) (\<lambda>s_to_d.
     bind (drawing_to_rId_image z) (\<lambda>d_to_r.
       do_drawings z (sheet_id_to_name sheets) r_to_s s_to_d d_to_r
         (filter is_drawing_xml (namelist z)) \<lparr>saved = [], image_map = []\<rparr>)))))"

section \<open>Record assembly\<close>

text \<open>
  The test of the inner loop: \<^verbatim>\<open>img_sheet == sheet and img_row in original_rows\<close>.
\<close>

definition joins :: "string \<times> int \<Rightarrow> merge_group \<Rightarrow> bool" where
  "joins key row = (fst key = g_sheet row \<and> snd key \<in> set (original_row row))"

definition image_urls :: "(string \<times> int, string list) dict \<Rightarrow> merge_group \<Rightarrow> string list" where
  "image_urls m row = concat (map snd (filter (\<lambda>(key, paths). joins key row) m))"

text \<open>
  A registry in which the path lists of different keys have no path in common.
\<close>

definition keyed_apart :: "(string \<times> int, string list) dict \<Rightarrow> bool" where
  "keyed_apart m =
     (\<forall>e \<in> set m. \<forall>e' \<in> set m. fst e \<noteq> fst e' \<longrightarrow> set (snd e) \<inter> set (snd e') = {})"

definition records ::
  "(string \<times> int, string list) dict \<Rightarrow> merge_group list \<Rightarrow> (merge_group \<times> string list) list" where
  "records m rows = map (\<lambda>row. (row, image_urls m row)) rows"

section \<open>Properties\<close>

subsection \<open>Column letters\<close>

lemma foldl_letters:
  "foldl (\<lambda>acc c. acc * 26 + (of_char c - 64)) a s = a * 26 ^ length s + letters_val s"
proof (induction s arbitrary: a)
  case Nil
  then show ?case by (simp add: letters_val_def)
next
  case (Cons c cs)
  have "foldl (\<lambda>acc c. acc * 26 + (of_char c - 64)) a (c # cs)
        = (a * 26 + (of_char c - 64)) * 26 ^ length cs + letters_val cs"
    using Cons.IH by simp
  moreover have "letters_val (c # cs) = (of_char c - 64) * 26 ^ length cs + letters_val cs"
    using Cons.IH [of "of_char c - 64"] by (simp add: letters_val_def)
  ultimately show ?case by (simp add: algebra_simps)
qed

lemma letters_val_Cons:
  "letters_val (c # cs) = (of_char c - 64) * 26 ^ length cs + letters_val cs"
  using foldl_letters [of "of_char c - 64" cs] by (simp add: letters_val_def)

lemma of_char_letter:
  "0 \<le> (n::int) \<Longrightarrow> of_char (char_of (n mod 26 + 65)) = n mod 26 + 65"
proof -
  assume "0 \<le> n"
  have "0 \<le> n mod 26" "n mod 26 < 26" by simp_all
  then have "(n mod 26 + 65) mod 256 = n mod 26 + 65" by simp
  then show ?thesis by (simp add: of_char_of)
qed

lemma digit_step: "(q::int) * (26 * P) + (r + 1) * P = (q * 26 + r + 1) * P"
  by (simp add: algebra_simps)

lemma colnum_loop_val:
  "- 1 \<le> n \<Longrightarrow> letters_val (colnum_loop n acc) = (n + 1) * 26 ^ length acc + letters_val acc"
proof (induction n acc rule: colnum_loop.induct)
  case (1 col_num result)
  show ?case
  proof (cases "col_num \<ge> 0")
    case True
    let ?c = "char_of (col_num mod 26 + 65) :: char"
    have "- 1 \<le> col_num div 26 - 1" using True by simp
    from "1.IH" [OF True this]
    have "letters_val (colnum_loop col_num result)
          = (col_num div 26) * 26 ^ length (?c # result) + letters_val (?c # result)"
      using True by simp
    also have "\<dots> = col_num div 26 * (26 * 26 ^ length result)
                     + (col_num mod 26 + 1) * 26 ^ length result + letters_val result"
      using True by (simp add: letters_val_Cons of_char_letter)
    also have "\<dots> = (col_num div 26 * 26 + col_num mod 26 + 1) * 26 ^ length result
                     + letters_val result"
      by (rule arg_cong [where f = "\<lambda>x. x + letters_val result"]) (rule digit_step)
    also have "col_num div 26 * 26 + col_num mod 26 = col_num" by simp
    finally show ?thesis .
  next
    case False
    with "1.prems" have "col_num = - 1" by simp
    with False show ?thesis by simp
  qed
qed

lemma letters_val_snoc: "letters_val (s @ [c]) = letters_val s * 26 + (of_char c - 64)"
  by (simp add: letters_val_def)

lemma letters_val_nonneg: "list_all is_upper s \<Longrightarrow> 0 \<le> letters_val s"
proof (induction s rule: rev_induct)
  case Nil
  then show ?case by (simp add: letters_val_def)
next
  case (snoc c s)
  then have "0 \<le> letters_val s" "is_upper c" by simp_all
  then have "0 \<le> letters_val s" "65 \<le> (of_char c :: int)" by (simp_all add: is_upper_def)
  then show ?case by (simp add: letters_val_snoc)
qed

lemma bijective26_letters:
  "list_all is_upper s \<Longrightarrow> bijective26 a s = Some (a * 26 ^ length s + letters_val s)"
proof (induction s arbitrary: a)
  case Nil
  then show ?case by (simp add: letters_val_def)
next
  case (Cons c cs)
  then have "bijective26 a (c # cs)
             = Some ((a * 26 + (of_char c - 64)) * 26 ^ length cs + letters_val cs)"
    by (simp add: letter_digit_def)
  then show ?case by (simp add: letters_val_Cons algebra_simps)
qed

lemma bijective26_upper: "bijective26 a s = Some v \<Longrightarrow> list_all is_upper s"
  by (induction s arbitrary: a) (auto simp: letter_digit_def split: if_splits option.splits)

lemma is_upper_letter: "0 \<le> (n::int) \<Longrightarrow> is_upper (char_of (n mod 26 + 65))"
proof -
  assume "0 \<le> n"
  have "0 \<le> n mod 26" "n mod 26 < 26" by simp_all
  then show ?thesis using of_char_letter [OF \<open>0 \<le> n\<close>] by (simp add: is_upper_def)
qed

lemma colnum_loop_upper:
  "(\<And>c. c \<in> set acc \<Longrightarrow> is_upper c) \<Longrightarrow> c \<in> set (colnum_loop n acc) \<Longrightarrow> is_upper c"
proof (induction n acc rule: colnum_loop.induct)
  case (1 col_num result)
  show ?case
  proof (cases "col_num \<ge> 0")
    case True
    have "is_upper c'" if "c' \<in> set (char_of (col_num mod 26 + 65) # result)" for c'
      using that "1.prems"(1) is_upper_letter [OF True] by auto
    from "1.IH" [OF True this] "1.prems"(2) True show ?thesis by simp
  next
    case False
    with "1.prems" show ?thesis by simp
  qed
qed

lemma colnum_upper: "c \<in> set (colnum_to_excel_col n) \<Longrightarrow> is_upper c"
  unfolding colnum_to_excel_col_def by (rule colnum_loop_upper [of "[]"]) simp_all

lemma colnum_letters: "list_all is_upper (colnum_to_excel_col n)"
  by (simp add: list_all_iff colnum_upper)

lemma encode_value: "0 \<le> n \<Longrightarrow> bijective26 0 (colnum_to_excel_col n) = Some (n + 1)"
proof -
  assume "0 \<le> n"
  then have "letters_val (colnum_to_excel_col n) = n + 1"
    using colnum_loop_val [of n "[]"] by (simp add: colnum_to_excel_col_def letters_val_def)
  with bijective26_letters [OF colnum_letters, of 0 n] show ?thesis by simp
qed

lemma colnum_nonempty: "0 \<le> n \<Longrightarrow> colnum_to_excel_col n \<noteq> []"
  using encode_value [of n] by auto

lemma last_digit:
  assumes "(1::int) \<le> d" "d \<le> 26"
  shows "(v * 26 + d - 1) div 26 = v \<and> (v * 26 + d - 1) mod 26 = d - 1"
proof -
  have e: "v * 26 + d - 1 = (d - 1) + v * 26" by simp
  from assms have "(d - 1) div 26 = 0" "(d - 1) mod 26 = d - 1" by simp_all
  then show ?thesis unfolding e by simp
qed

lemma colnum_loop_letters:
  "list_all is_upper s \<Longrightarrow> colnum_loop (letters_val s - 1) acc = s @ acc"
proof (induction s arbitrary: acc rule: rev_induct)
  case Nil
  then show ?case by (simp add: letters_val_def)
next
  case (snoc c s)
  let ?v = "letters_val s" and ?d = "of_char c - 64 :: int"
  from snoc.prems have s: "list_all is_upper s" and c: "is_upper c" by simp_all
  from c have d: "1 \<le> ?d" "?d \<le> 26" by (simp_all add: is_upper_def)
  from letters_val_nonneg [OF s] d have pos: "0 \<le> ?v * 26 + ?d - 1"
    by simp
  from last_digit [OF d, of ?v]
  have dm: "(?v * 26 + ?d - 1) div 26 = ?v" "(?v * 26 + ?d - 1) mod 26 = ?d - 1" by simp_all
  have "char_of (?d - 1 + 65) = c"
  proof -
    have "?d - 1 + 65 = (of_char c :: int)" by simp
    then show ?thesis by (simp only: char_of_char)
  qed
  with dm pos
  have "colnum_loop (?v * 26 + ?d - 1) acc = colnum_loop (?v - 1) (c # acc)"
    by (subst colnum_loop.simps) simp
  also have "\<dots> = s @ c # acc" using s by (rule snoc.IH)
  finally show ?case by (simp add: letters_val_snoc)
qed

lemma value_unique: "bijective26 0 s = Some (n + 1) \<Longrightarrow> colnum_to_excel_col n = s"
proof -
  assume v: "bijective26 0 s = Some (n + 1)"
  then have s: "list_all is_upper s" by (rule bijective26_upper)
  from bijective26_letters [OF s, of 0] v have "letters_val s = n + 1" by simp
  with colnum_loop_letters [OF s, of "[]"] show ?thesis
    by (simp add: colnum_to_excel_col_def)
qed

lemma colnum_inj:
  "0 \<le> m \<Longrightarrow> 0 \<le> n \<Longrightarrow> colnum_to_excel_col m = colnum_to_excel_col n \<Longrightarrow> m = n"
proof -
  assume m: "0 \<le> m" and n: "0 \<le> n" and eq: "colnum_to_excel_col m = colnum_to_excel_col n"
  from encode_value [OF m] eq have "bijective26 0 (colnum_to_excel_col n) = Some (m + 1)"
    by (simp only:)
  with encode_value [OF n] have "Some (n + 1) = Some (m + 1)" by (simp only:)
  then show ?thesis by simp
qed

subsection \<open>Columns and groups\<close>

lemma length_cumsum_from [simp]: "length (cumsum_from a bs) = length bs"
  by (induction bs arbitrary: a) (simp_all add: Let_def)

lemma cumsum_from_nth:
  "i < length bs \<Longrightarrow> cumsum_from a bs ! i = a + length (filter (\<lambda>b. b) (take (Suc i) bs))"
proof (induction bs arbitrary: a i)
  case Nil
  then show ?case by simp
next
  case (Cons b bs)
  show ?case
  proof (cases i)
    case 0
    then show ?thesis by (simp add: Let_def)
  next
    case (Suc j)
    with Cons.prems have "j < length bs" by simp
    from Cons.IH [OF this] Suc show ?thesis by (simp add: Let_def)
  qed
qed

lemma length_ffill_from [simp]: "length (ffill_from p xs) = length xs"
  by (induction xs arbitrary: p) (simp_all add: Let_def)

lemma last_valid_Cons:
  "last_valid p (x # xs) = last_valid (if notna x then x else p) xs"
  by (simp add: last_valid_def split: list.splits)

lemma ffill_from_nth:
  "i < length xs \<Longrightarrow> ffill_from p xs ! i = last_valid p (take (Suc i) xs)"
proof (induction xs arbitrary: p i)
  case Nil
  then show ?case by simp
next
  case (Cons x xs)
  show ?case
  proof (cases i)
    case 0
    then show ?thesis by (simp add: Let_def last_valid_def)
  next
    case (Suc j)
    with Cons.prems have "j < length xs" by simp
    from Cons.IH [OF this] Suc show ?thesis
      by (simp add: Let_def last_valid_Cons del: take_Suc_Cons) (simp add: last_valid_Cons)
  qed
qed

lemma length_df_filled [simp]: "length (df_filled df) = length df"
  by (simp add: df_filled_def Let_def)

lemma df_filled_nth_original_row:
  "k < length df \<Longrightarrow> f_original_row (df_filled df ! k) = int k + 2"
  by (simp add: df_filled_def Let_def)

lemma df_filled_nth_grp:
  "k < length df \<Longrightarrow> f_grp (df_filled df ! k) = grp_ids df ! k"
  by (simp add: df_filled_def Let_def)

lemma first_seen_set [simp]: "set (first_seen ks) = set ks"
  by (induction ks rule: first_seen.induct) auto

lemma first_seen_distinct [simp]: "distinct (first_seen ks)"
  by (induction ks rule: first_seen.induct) auto

lemma astype_rows_length: "astype_rows as = Inr gs \<Longrightarrow> length gs = length as"
  by (induction as arbitrary: gs) (auto split: sum.splits)

lemma cast_no_original_row: "cast_no a = Inr g \<Longrightarrow> original_row g = a_original_row a"
  by (auto simp: cast_no_def split: sum.splits)

lemma astype_rows_nth:
  "astype_rows as = Inr gs \<Longrightarrow> i < length as \<Longrightarrow> cast_no (as ! i) = Inr (gs ! i)"
proof (induction as arbitrary: gs i)
  case Nil
  then show ?case by simp
next
  case (Cons a as)
  then show ?case by (cases i) (auto split: sum.splits)
qed

lemma df_filled_nth:
  "k < length df \<Longrightarrow> df_filled df ! k =
     \<lparr>f_sheet = r_sheet (df ! k), f_cls = ffill (map r_cls df) ! k,
      f_item = ffill (map r_item df) ! k, f_no = ffill (map r_no df) ! k,
      f_question = r_question (df ! k), f_answer = r_answer (df ! k),
      f_grp = grp_ids df ! k, f_original_row = int k + 2\<rparr>"
  by (simp add: df_filled_def Let_def)

lemma original_row_inj:
  assumes "r \<in> set (df_filled df)" "r' \<in> set (df_filled df)"
    and "f_original_row r = f_original_row r'"
  shows "r = r'"
proof -
  from assms(1) obtain k where k: "k < length df" "r = df_filled df ! k"
    by (auto simp: in_set_conv_nth)
  from assms(2) obtain k' where k': "k' < length df" "r' = df_filled df ! k'"
    by (auto simp: in_set_conv_nth)
  from assms(3) k k' have "int k + 2 = int k' + 2"
    by (simp add: df_filled_nth_original_row)
  then have "k = k'" by simp
  with k k' show ?thesis by simp
qed

lemma length_groupby_grp:
  "length (groupby_grp fr) = length (first_seen (map f_grp fr))"
  by (simp add: groupby_grp_def)

lemma melt_length:
  "melt_merged_rows df = Inr gs
   \<Longrightarrow> length gs = length (first_seen (map f_grp (df_filled df)))"
  by (simp add: melt_merged_rows_def agg_frame_def astype_rows_length length_groupby_grp)

lemma melt_original_row:
  assumes "melt_merged_rows df = Inr gs" "i < length gs"
  shows "original_row (gs ! i) =
         map f_original_row
           (filter (\<lambda>r. f_grp r = first_seen (map f_grp (df_filled df)) ! i) (df_filled df))"
proof -
  let ?fr = "df_filled df"
  let ?as = "agg_frame df"
  from assms have len: "i < length ?as"
    by (simp add: melt_length agg_frame_def length_groupby_grp)
  from assms(1) have "astype_rows ?as = Inr gs" by (simp add: melt_merged_rows_def)
  from astype_rows_nth [OF this len] have "cast_no (?as ! i) = Inr (gs ! i)" .
  then have "original_row (gs ! i) = a_original_row (?as ! i)" by (rule cast_no_original_row)
  also from len have "\<dots> = a_original_row (agg (groupby_grp ?fr ! i))"
    by (simp add: agg_frame_def)
  also from len have "\<dots> = map f_original_row
           (filter (\<lambda>r. f_grp r = first_seen (map f_grp ?fr) ! i) ?fr)"
    by (simp add: agg_def groupby_grp_def agg_frame_def)
  finally show ?thesis .
qed

lemma groups_disjoint:
  assumes m: "melt_merged_rows df = Inr gs" and i: "i < length gs" and j: "j < length gs"
    and x: "x \<in> set (original_row (gs ! i))" "x \<in> set (original_row (gs ! j))"
  shows "i = j"
proof -
  let ?fr = "df_filled df"
  let ?ks = "first_seen (map f_grp ?fr)"
  from x(1) melt_original_row [OF m i]
  obtain r where r: "r \<in> set ?fr" "f_grp r = ?ks ! i" "f_original_row r = x" by auto
  from x(2) melt_original_row [OF m j]
  obtain r' where r': "r' \<in> set ?fr" "f_grp r' = ?ks ! j" "f_original_row r' = x" by auto
  from r r' have "r = r'" by (intro original_row_inj [of r df r']) simp_all
  with r r' have "?ks ! i = ?ks ! j" by simp
  moreover have "distinct ?ks" by simp
  moreover from i j m have "i < length ?ks" "j < length ?ks" by (simp_all add: melt_length)
  ultimately show ?thesis by (simp add: nth_eq_iff_index_eq)
qed

lemma image_urls_mem:
  "p \<in> set (image_urls m row) \<longleftrightarrow> (\<exists>e \<in> set m. joins (fst e) row \<and> p \<in> set (snd e))"
  by (force simp: image_urls_def)

lemma length_grp_ids [simp]: "length (grp_ids df) = length df"
  by (simp add: grp_ids_def cumsum_def)

lemma grp_ids_nth:
  "i < length df \<Longrightarrow>
   grp_ids df ! i = length (filter (\<lambda>r. notna (r_cls r)) (take (Suc i) df))"
proof -
  assume i: "i < length df"
  then have "grp_ids df ! i
             = length (filter (\<lambda>b. b) (take (Suc i) (map (\<lambda>r. notna (r_cls r)) df)))"
    by (simp add: grp_ids_def cumsum_def cumsum_from_nth)
  also have "\<dots> = length (filter (\<lambda>b. b) (map (\<lambda>r. notna (r_cls r)) (take (Suc i) df)))"
    by (simp add: take_map)
  also have "\<dots> = length (filter (\<lambda>r. notna (r_cls r)) (take (Suc i) df))"
    by (simp add: filter_map comp_def)
  finally show ?thesis .
qed

lemma grp_filter:
  "filter (\<lambda>r. f_grp r = k) (df_filled df)
   = map (\<lambda>i. df_filled df ! i) (filter (\<lambda>i. grp_ids df ! i = k) [0..<length df])"
proof -
  let ?fr = "df_filled df"
  have "map (\<lambda>i. ?fr ! i) [0..<length df] = ?fr"
    using map_nth [of ?fr] by simp
  then have "filter (\<lambda>r. f_grp r = k) ?fr
        = filter (\<lambda>r. f_grp r = k) (map (\<lambda>i. ?fr ! i) [0..<length df])"
    by simp
  also have "\<dots> = map (\<lambda>i. ?fr ! i) (filter (\<lambda>i. f_grp (?fr ! i) = k) [0..<length df])"
    by (simp add: filter_map comp_def)
  also have "filter (\<lambda>i. f_grp (?fr ! i) = k) [0..<length df]
             = filter (\<lambda>i. grp_ids df ! i = k) [0..<length df]"
    by (rule filter_cong) (simp_all add: df_filled_nth_grp)
  finally show ?thesis .
qed

lemma filter_upt_interval:
  assumes "a \<le> b" "b \<le> n" "\<And>i. i < n \<Longrightarrow> P i \<longleftrightarrow> a \<le> i \<and> i < b"
  shows "filter P [0..<n] = [a..<b]"
proof -
  have "[0..<n] = [0..<a] @ [a..<b] @ [b..<n]"
    using assms(1,2) by (metis le_add_diff_inverse upt_add_eq_append zero_le le_trans)
  moreover have "filter P [0..<a] = []" using assms by (auto simp: filter_empty_conv)
  moreover have "filter P [b..<n] = []" using assms by (auto simp: filter_empty_conv)
  moreover have "filter P [a..<b] = [a..<b]" using assms by (auto simp: filter_id_conv)
  ultimately show ?thesis by simp
qed


lemma melt_nth:
  assumes "melt_merged_rows df = Inr gs" "i < length gs"
  shows "cast_no (agg (filter (\<lambda>r. f_grp r = first_seen (map f_grp (df_filled df)) ! i)
                         (df_filled df))) = Inr (gs ! i)"
proof -
  from assms have len: "i < length (agg_frame df)"
    by (simp add: melt_length agg_frame_def length_groupby_grp)
  from assms(1) have "astype_rows (agg_frame df) = Inr gs" by (simp add: melt_merged_rows_def)
  from astype_rows_nth [OF this len] len show ?thesis
    by (simp add: agg_frame_def groupby_grp_def)
qed

lemma astype_rows_ok:
  "(\<And>a. a \<in> set as \<Longrightarrow> \<not> isl (cast_no a)) \<Longrightarrow> \<exists>gs. astype_rows as = Inr gs"
proof (induction as)
  case Nil
  then show ?case by simp
next
  case (Cons a as)
  from Cons.prems have "\<not> isl (cast_no a)" by simp
  then obtain g where g: "cast_no a = Inr g" by (cases "cast_no a") auto
  from Cons obtain gs where "astype_rows as = Inr gs" by auto
  with g show ?case by simp
qed

lemma cast_no_ok: "\<not> isl (astype_int (a_no a)) \<Longrightarrow> \<not> isl (cast_no a)"
  by (auto simp: cast_no_def split: sum.splits)

lemma astype_rows_isl:
  "isl (astype_rows as) \<longleftrightarrow> \<not> list_all (\<lambda>a. \<not> isl (astype_int (a_no a))) as"
proof (induction as)
  case Nil
  then show ?case by simp
next
  case (Cons a as)
  then show ?case by (cases "astype_int (a_no a)") (auto simp: cast_no_def split: sum.splits)
qed

lemma melt_isl: "isl (melt_merged_rows df) \<longleftrightarrow> \<not> seq_numbers_resolve df"
  by (simp add: melt_merged_rows_def seq_numbers_resolve_def astype_rows_isl)

lemma melt_total:
  assumes "seq_numbers_resolve df"
  shows "\<exists>gs. melt_merged_rows df = Inr gs"
  using assms melt_isl [of df] by (cases "melt_merged_rows df") auto

lemma segment_keys:
  assumes cls: "notna (r_cls r1)" "r_cls r2 = NaN" "r_cls r3 = NaN"
    and post: "case post of [] \<Rightarrow> True | r # _ \<Rightarrow> notna (r_cls r)"
    and i: "i < length (pre @ [r1, r2, r3] @ post)"
  shows "grp_ids (pre @ [r1, r2, r3] @ post) ! i = Suc (cnt pre)
         \<longleftrightarrow> length pre \<le> i \<and> i < length pre + 3"
proof -
  let ?df = "pre @ [r1, r2, r3] @ post"
  let ?p = "length pre"
  have g: "grp_ids ?df ! i = cnt (take (Suc i) ?df)" using i by (rule grp_ids_nth)
  consider "i < ?p" | "i = ?p" | "i = ?p + 1" | "i = ?p + 2" | "?p + 3 \<le> i" by linarith
  then show ?thesis
  proof cases
    case 1
    then have "take (Suc i) ?df = take (Suc i) pre" by simp
    moreover have "cnt (take (Suc i) pre) \<le> cnt pre"
      by (metis append_take_drop_id filter_append length_append le_add1)
    ultimately show ?thesis using g 1 by simp
  next
    case 2
    then show ?thesis using g cls by simp
  next
    case 3
    then show ?thesis using g cls by (simp add: notna_def)
  next
    case 4
    then show ?thesis using g cls by (simp add: notna_def)
  next
    case 5
    with i obtain q qs where q: "post = q # qs" by (cases post) auto
    with post have nq: "notna (r_cls q)" by simp
    from 5 obtain d where d: "i = ?p + 3 + d" using le_Suc_ex by blast
    then have "Suc i - ?p = Suc (Suc (Suc (Suc d)))" by simp
    then have "take (Suc i - ?p) ([r1, r2, r3] @ q # qs) = [r1, r2, r3] @ q # take d qs"
      by (simp only: append_Cons append_Nil take_Suc_Cons)
    moreover have "take (Suc i) pre = pre" using d by simp
    ultimately have "take (Suc i) ?df = pre @ [r1, r2, r3] @ q # take d qs"
      by (simp only: take_append q)
    then have "cnt (take (Suc i) ?df) \<ge> cnt pre + 2" using cls nq by simp
    with g 5 show ?thesis by simp
  qed
qed

lemma segment_group:
  assumes cls: "notna (r_cls r1)" "r_cls r2 = NaN" "r_cls r3 = NaN"
    and post: "case post of [] \<Rightarrow> True | r # _ \<Rightarrow> notna (r_cls r)"
  shows "filter (\<lambda>r. f_grp r = Suc (cnt pre)) (df_filled (pre @ [r1, r2, r3] @ post))
         = map (\<lambda>i. df_filled (pre @ [r1, r2, r3] @ post) ! i)
             [length pre, length pre + 1, length pre + 2]"
proof -
  let ?df = "pre @ [r1, r2, r3] @ post"
  have "filter (\<lambda>i. grp_ids ?df ! i = Suc (cnt pre)) [0..<length ?df]
        = [length pre..<length pre + 3]"
  proof (rule filter_upt_interval)
    show "length pre \<le> length pre + 3" by simp
    show "length pre + 3 \<le> length ?df" by simp
    fix i assume "i < length ?df"
    then show "grp_ids ?df ! i = Suc (cnt pre) \<longleftrightarrow> length pre \<le> i \<and> i < length pre + 3"
      by (rule segment_keys [OF assms])
  qed
  moreover have "[length pre..<length pre + 3] = [length pre, length pre + 1, length pre + 2]"
    by (simp add: upt_rec [of "length pre"] upt_rec [of "Suc (length pre)"]
                  upt_rec [of "Suc (Suc (length pre))"])
  ultimately show ?thesis by (simp only: grp_filter)
qed


lemma filter_singleton_nth:
  assumes j: "j < length xs" and Pj: "P (xs ! j)"
    and others: "\<And>i. i < length xs \<Longrightarrow> i \<noteq> j \<Longrightarrow> \<not> P (xs ! i)"
  shows "filter P xs = [xs ! j]"
proof -
  have split: "xs = take j xs @ xs ! j # drop (Suc j) xs" using j by (rule id_take_nth_drop)
  have "\<not> P x" if "x \<in> set (take j xs)" for x
  proof -
    from that obtain i where "i < length (take j xs)" "x = take j xs ! i"
      by (auto simp: in_set_conv_nth)
    then have "i < length xs" "i \<noteq> j" "x = xs ! i" using j by simp_all
    then show ?thesis using others by simp
  qed
  then have a: "filter P (take j xs) = []" by (simp add: filter_empty_conv)
  have "\<not> P x" if "x \<in> set (drop (Suc j) xs)" for x
  proof -
    from that obtain i where "i < length (drop (Suc j) xs)" "x = drop (Suc j) xs ! i"
      by (auto simp: in_set_conv_nth)
    then have "Suc j + i < length xs" "Suc j + i \<noteq> j" "x = xs ! (Suc j + i)" using j by simp_all
    then show ?thesis using others by blast
  qed
  then have b: "filter P (drop (Suc j) xs) = []" by (simp add: filter_empty_conv)
  have "filter P xs = filter P (take j xs) @ filter P [xs ! j] @ filter P (drop (Suc j) xs)"
    using split by (metis append_Cons append_Nil filter_append)
  with a b Pj show ?thesis by simp
qed

lemma cast_no_fields:
  "cast_no a = Inr g \<Longrightarrow>
   g_sheet g = a_sheet a \<and> g_cls g = a_cls a \<and> g_item g = a_item a \<and>
   astype_int (a_no a) = Inr (g_no g) \<and>
   g_question g = a_question a \<and> g_answer g = a_answer a \<and> original_row g = a_original_row a"
  by (auto simp: cast_no_def split: sum.splits)

lemma Rep_Abs_num64: "- (2 ^ 63) \<le> q \<Longrightarrow> q < 2 ^ 63 \<Longrightarrow> Rep_num64 (Abs_num64 q) = q"
  by (simp add: Abs_num64_inverse)

text \<open>The definitions that evaluate the melter on a concrete table.\<close>

lemmas melt_eval =
  organized_df_def df_all_def attach_sheet_def melt_merged_rows_def agg_frame_def df_filled_def
  grp_ids_def cumsum_def ffill_def notna_def groupby_grp_def agg_def agg_first_def
  agg_first_str_def join_lines_def dropna_def cast_no_def int64_def trunc_def upt_conv_Cons
  Let_def ascii_def seq_numbers_resolve_def Rep_Abs_num64

lemma ffill_from_append:
  "ffill_from p (xs @ ys) = ffill_from p xs @ ffill_from (last_valid p xs) ys"
proof (induction xs arbitrary: p)
  case Nil
  then show ?case by (simp add: last_valid_def)
next
  case (Cons x xs)
  then show ?case by (simp add: Let_def last_valid_Cons)
qed

lemma ffill_from_start:
  "(case ys of [] \<Rightarrow> True | y # _ \<Rightarrow> notna y) \<Longrightarrow> ffill_from p ys = ffill ys"
  by (cases ys) (simp_all add: ffill_def Let_def)

lemma ffill_from_concat:
  "(\<And>xs. xs \<in> set xss \<Longrightarrow> (case xs of [] \<Rightarrow> True | x # _ \<Rightarrow> notna x))
   \<Longrightarrow> ffill_from p (concat xss) = concat (map ffill xss)"
proof (induction xss arbitrary: p)
  case Nil
  then show ?case by simp
next
  case (Cons xs xss)
  have "ffill_from p (concat (xs # xss))
        = ffill_from p xs @ ffill_from (last_valid p xs) (concat xss)"
    by (simp add: ffill_from_append)
  also have "ffill_from p xs = ffill xs" using Cons.prems by (intro ffill_from_start) simp
  also have "ffill_from (last_valid p xs) (concat xss) = concat (map ffill xss)"
    using Cons.prems by (intro Cons.IH) simp
  finally show ?case by simp
qed

lemma df_all_column:
  assumes "df_all excel_file = Inr df"
  shows "map r_cls df = concat (map (\<lambda>(n, rows). map cls rows) excel_file)"
    and "map r_item df = concat (map (\<lambda>(n, rows). map item rows) excel_file)"
    and "map r_no df = concat (map (\<lambda>(n, rows). map no rows) excel_file)"
proof -
  from assms have df: "df = concat (map (\<lambda>(n, rows). map (attach_sheet n) rows) excel_file)"
    by (auto simp: df_all_def split: if_splits)
  show "map r_cls df = concat (map (\<lambda>(n, rows). map cls rows) excel_file)"
    unfolding df by (induction excel_file) (auto simp: attach_sheet_def)
  show "map r_item df = concat (map (\<lambda>(n, rows). map item rows) excel_file)"
    unfolding df by (induction excel_file) (auto simp: attach_sheet_def)
  show "map r_no df = concat (map (\<lambda>(n, rows). map no rows) excel_file)"
    unfolding df by (induction excel_file) (auto simp: attach_sheet_def)
qed

lemma ffill_sheets:
  assumes "first_rows_filled col excel_file"
  shows "ffill (concat (map (\<lambda>(n, rows). map col rows) excel_file))
         = ffill_within_sheets col excel_file"
proof -
  have "ffill_from NaN (concat (map (\<lambda>(n, rows). map col rows) excel_file))
        = concat (map ffill (map (\<lambda>(n, rows). map col rows) excel_file))"
  proof (rule ffill_from_concat)
    fix xs assume "xs \<in> set (map (\<lambda>(n, rows). map col rows) excel_file)"
    then obtain n rows where "(n, rows) \<in> set excel_file" "xs = map col rows" by auto
    with assms show "case xs of [] \<Rightarrow> True | x # _ \<Rightarrow> notna x"
      by (cases rows) (auto simp: first_rows_filled_def)
  qed
  also have "\<dots> = ffill_within_sheets col excel_file"
    by (simp add: ffill_within_sheets_def comp_def case_prod_unfold)
  finally show ?thesis by (simp add: ffill_def)
qed

lemma df_filled_columns:
  "map f_cls (df_filled df) = ffill (map r_cls df)"
  "map f_item (df_filled df) = ffill (map r_item df)"
  "map f_no (df_filled df) = ffill (map r_no df)"
  by (rule nth_equalityI; simp add: df_filled_nth ffill_def)+















lemma map_f_grp [simp]: "map f_grp (df_filled df) = grp_ids df"
  by (rule nth_equalityI) (simp_all add: df_filled_nth_grp)









subsection \<open>Cell labels and save names\<close>

lemma digits_val_snoc: "digits_val (s @ [c]) = digits_val s * 10 + (of_char c - 48)"
  by (simp add: digits_val_def)

lemma of_char_digit: "d < 10 \<Longrightarrow> of_char (char_of (48 + d :: nat)) = 48 + d"
  by (simp add: of_char_of)

lemma is_digit_char: "d < 10 \<Longrightarrow> is_digit (char_of (48 + d :: nat))"
proof -
  assume d: "d < 10"
  have "(of_char (char_of (48 + d)) :: int) = int (of_char (char_of (48 + d)) :: nat)"
    by (simp only: of_nat_of_char)
  also have "\<dots> = int (48 + d)" using d by (simp only: of_char_digit)
  finally show ?thesis using d by (simp add: is_digit_def)
qed

lemma str_nat_val: "digits_val (str_nat n) = n"
proof (induction n rule: str_nat.induct)
  case (1 n)
  show ?case
  proof (cases "n < 10")
    case True
    then have "str_nat n = [char_of (48 + n)]" by (subst str_nat.simps) simp
    with True show ?thesis by (simp add: digits_val_def of_char_digit)
  next
    case False
    then have s: "str_nat n = str_nat (n div 10) @ [char_of (48 + n mod 10)]"
      by (subst str_nat.simps) simp
    have "n mod 10 < 10" by simp
    then have "of_char (char_of (48 + n mod 10)) = 48 + n mod 10" by (rule of_char_digit)
    with "1.IH" [OF False] s show ?thesis by (simp add: digits_val_snoc)
  qed
qed

lemma str_nat_digits: "c \<in> set (str_nat n) \<Longrightarrow> is_digit c"
proof (induction n rule: str_nat.induct)
  case (1 n)
  show ?case
  proof (cases "n < 10")
    case True
    then have "str_nat n = [char_of (48 + n)]" by (subst str_nat.simps) simp
    with "1.prems" True show ?thesis by (simp add: is_digit_char)
  next
    case False
    then have s: "str_nat n = str_nat (n div 10) @ [char_of (48 + n mod 10)]"
      by (subst str_nat.simps) simp
    have "is_digit (char_of (48 + n mod 10))" by (rule is_digit_char) simp
    with "1.IH" [OF False] "1.prems" s show ?thesis by auto
  qed
qed

lemma str_nat_nonempty: "str_nat n \<noteq> []"
  by (subst str_nat.simps) simp

lemma str_nat_inj: "str_nat m = str_nat n \<Longrightarrow> m = n"
  by (metis str_nat_val)

lemma minus_not_digit: "\<not> is_digit CHR ''-''"
  by (simp add: is_digit_def)

lemma py_str_inj: "py_str i = py_str j \<Longrightarrow> i = j"
proof -
  assume eq: "py_str i = py_str j"
  have no_minus: "CHR ''-'' # s \<noteq> str_nat n" for s n
  proof
    assume "CHR ''-'' # s = str_nat n"
    then have "CHR ''-'' \<in> set (str_nat n)" by (metis list.set_intros(1))
    then show False using str_nat_digits minus_not_digit by blast
  qed
  consider "i < 0" "j < 0" | "i < 0" "\<not> j < 0" | "\<not> i < 0" "j < 0" | "\<not> i < 0" "\<not> j < 0"
    by blast
  then show ?thesis
  proof cases
    case 1
    with eq have "str_nat (nat (- i)) = str_nat (nat (- j))" by (simp add: py_str_def)
    then have "nat (- i) = nat (- j)" by (rule str_nat_inj)
    with 1 show ?thesis by simp
  next
    case 2
    with eq no_minus show ?thesis by (simp add: py_str_def)
  next
    case 3
    with eq no_minus [of "str_nat (nat (- j))" "nat i"] show ?thesis
      by (simp add: py_str_def)
  next
    case 4
    with eq have "str_nat (nat i) = str_nat (nat j)" by (simp add: py_str_def)
    then have "nat i = nat j" by (rule str_nat_inj)
    with 4 show ?thesis by simp
  qed
qed

lemma py_str_chars: "c \<in> set (py_str i) \<Longrightarrow> is_digit c \<or> c = CHR ''-''"
  by (auto simp: py_str_def dest: str_nat_digits split: if_splits)

lemma py_str_nonempty: "py_str i \<noteq> []"
  by (simp add: py_str_def str_nat_nonempty)

lemma upper_not_digit: "is_upper c \<Longrightarrow> \<not> is_digit c \<and> c \<noteq> CHR ''-'' \<and> c \<noteq> CHR ''_''"
  by (auto simp: is_upper_def is_digit_def)

lemma digit_not_underscore: "is_digit c \<Longrightarrow> c \<noteq> CHR ''_''"
  by (auto simp: is_digit_def)

lemma cell_name_no_underscore: "c \<in> set (cell_name col row) \<Longrightarrow> c \<noteq> CHR ''_''"
  by (auto simp: cell_name_def dest: colnum_upper upper_not_digit py_str_chars digit_not_underscore)

lemma takeWhile_split:
  "(\<And>x. x \<in> set xs \<Longrightarrow> P x) \<Longrightarrow> (case ys of [] \<Rightarrow> True | y # _ \<Rightarrow> \<not> P y)
   \<Longrightarrow> takeWhile P (xs @ ys) = xs"
  by (cases ys) (simp_all add: takeWhile_append2)

lemma cell_name_inj:
  assumes "0 \<le> col1" "0 \<le> col2" "cell_name col1 row1 = cell_name col2 row2"
  shows "col1 = col2 \<and> row1 = row2"
proof -
  have tw: "takeWhile is_upper (cell_name col row) = colnum_to_excel_col col" for col row
  proof -
    obtain y ys where y: "py_str (row + 1) = y # ys"
      using py_str_nonempty [of "row + 1"] by (cases "py_str (row + 1)") auto
    then have "y \<in> set (py_str (row + 1))" by simp
    then have "\<not> is_upper y" using py_str_chars upper_not_digit by blast
    with y show ?thesis
      unfolding cell_name_def by (intro takeWhile_split) (simp_all add: colnum_upper)
  qed
  from assms(3) tw [of col1 row1] tw [of col2 row2]
  have letters: "colnum_to_excel_col col1 = colnum_to_excel_col col2" by simp
  with assms have col: "col1 = col2" by (intro colnum_inj)
  from assms(3) letters have "py_str (row1 + 1) = py_str (row2 + 1)"
    by (simp add: cell_name_def)
  then have "row1 + 1 = row2 + 1" by (rule py_str_inj)
  with col show ?thesis by simp
qed

lemma underscore_split:
  assumes "\<And>x. x \<in> set a \<Longrightarrow> x \<noteq> u" "\<And>x. x \<in> set b \<Longrightarrow> x \<noteq> u"
    and "a @ u # r = b @ u # s"
  shows "a = b \<and> r = s"
proof -
  have "takeWhile (\<lambda>x. x \<noteq> u) (a @ u # r) = a"
    using assms(1) by (intro takeWhile_split) simp_all
  moreover have "takeWhile (\<lambda>x. x \<noteq> u) (b @ u # s) = b"
    using assms(2) by (intro takeWhile_split) simp_all
  ultimately have "a = b" using assms(3) by simp
  with assms(3) show ?thesis by simp
qed

lemma save_name_same_sheet:
  assumes "0 \<le> col1" "0 \<le> col2"
    and "save_name sheet (cell_name col1 row1) f1 = save_name sheet (cell_name col2 row2) f2"
  shows "col1 = col2 \<and> row1 = row2"
proof -
  from assms(3)
  have "cell_name col1 row1 @ CHR ''_'' # f1 = cell_name col2 row2 @ CHR ''_'' # f2"
    by (simp add: save_name_def)
  then have "cell_name col1 row1 = cell_name col2 row2"
    using underscore_split [of "cell_name col1 row1" "CHR ''_''" "cell_name col2 row2" f1 f2]
      cell_name_no_underscore by blast
  with assms(1,2) show ?thesis by (rule cell_name_inj)
qed

lemma save_name_same_file:
  assumes "0 \<le> col1" "0 \<le> col2"
    and "save_name sheet1 (cell_name col1 row1) f = save_name sheet2 (cell_name col2 row2) f"
  shows "sheet1 = sheet2 \<and> col1 = col2 \<and> row1 = row2"
proof -
  let ?c1 = "cell_name col1 row1" and ?c2 = "cell_name col2 row2"
  from assms(3) have "(sheet1 @ CHR ''_'' # ?c1) @ CHR ''_'' # f = (sheet2 @ CHR ''_'' # ?c2) @ CHR ''_'' # f"
    by (simp add: save_name_def)
  then have "sheet1 @ CHR ''_'' # ?c1 = sheet2 @ CHR ''_'' # ?c2" by (simp only: append_same_eq)
  then have "rev (sheet1 @ CHR ''_'' # ?c1) = rev (sheet2 @ CHR ''_'' # ?c2)" by simp
  then have "rev ?c1 @ CHR ''_'' # rev sheet1 = rev ?c2 @ CHR ''_'' # rev sheet2" by simp
  then have "rev ?c1 = rev ?c2 \<and> rev sheet1 = rev sheet2"
    using underscore_split [of "rev ?c1" "CHR ''_''" "rev ?c2" "rev sheet1" "rev sheet2"]
      cell_name_no_underscore by (metis set_rev)
  then have "?c1 = ?c2" "sheet1 = sheet2" by simp_all
  with cell_name_inj [OF assms(1,2)] show ?thesis by simp
qed

text \<open>The definitions that evaluate a save name.\<close>

lemmas image_eval =
  cell_name_def save_name_def save_path_def colnum_to_excel_col_def char_of_def py_str_def
  str_nat.simps bit_0

subsection \<open>Links that are missing\<close>

text \<open>
  What the scan tolerates: a drawing to which no worksheet relationship leads, a sheet
  file without a drawing relationship, an embed id without an image relationship and a
  media part that is not in the archive leave the registry as it is.
\<close>

lemma next_sheet_name_no_match:
  "\<forall>item \<in> set r_to_s. map_of s_to_d (snd item) \<noteq> Some drawing_name
   \<Longrightarrow> next_sheet_name id_to_name r_to_s s_to_d drawing_name = Inr None"
proof (induction r_to_s)
  case Nil
  then show ?case by simp
next
  case (Cons item items)
  obtain rId sheet_file where item: "item = (rId, sheet_file)" by (cases item)
  with Cons.prems have "map_of s_to_d sheet_file \<noteq> Some drawing_name" by simp
  moreover have "next_sheet_name id_to_name items s_to_d drawing_name = Inr None"
    using Cons.prems by (intro Cons.IH) simp
  ultimately show ?case using item by simp
qed

lemma next_sheet_name_skip:
  "map_of s_to_d sheet_file = None
   \<Longrightarrow> next_sheet_name id_to_name ((rId, sheet_file) # items) s_to_d drawing_name
       = next_sheet_name id_to_name items s_to_d drawing_name"
  by simp

lemma do_drawing_unresolved:
  "next_sheet_name id_to_name r_to_s s_to_d (last_segment drawing_xml) = Inr None
   \<Longrightarrow> do_drawing z id_to_name r_to_s s_to_d d_to_r reg drawing_xml = Inr reg"
  by (simp add: do_drawing_def bind_def)

lemma do_anchor_no_embed:
  "blip a = Some rId \<Longrightarrow> image_file_of d_to_r drawing_name rId = None
   \<Longrightarrow> do_anchor names d_to_r drawing_name sheet_name reg a = reg"
  by (simp add: do_anchor_def)

lemma do_anchor_no_media:
  "blip a = Some rId \<Longrightarrow> image_file_of d_to_r drawing_name rId = Some image_file
   \<Longrightarrow> ''xl/media/'' @ image_file \<notin> set names
   \<Longrightarrow> do_anchor names d_to_r drawing_name sheet_name reg a = reg"
  by (simp add: do_anchor_def)

lemma no_drawing_relationship_example:
  "extract_images
     [(''xl/workbook.xml'', Workbook [\<lparr>sh_rid = ''rId1'', sh_name = ''Sheet1''\<rparr>]),
      (''xl/_rels/workbook.xml.rels'',
         Relationships [\<lparr>rel_Type = ''http://schemas.openxmlformats.org/officeDocument/2006/relationships/worksheet'',
                          rel_Id = ''rId1'', rel_Target = ''worksheets/sheet1.xml''\<rparr>]),
      (''xl/worksheets/_rels/sheet1.xml.rels'',
         Relationships [\<lparr>rel_Type = ''http://schemas.openxmlformats.org/officeDocument/2006/relationships/printerSettings'',
                          rel_Id = ''rId1'', rel_Target = ''../printerSettings/printerSettings1.bin''\<rparr>]),
      (''xl/drawings/drawing1.xml'',
         Drawing [\<lparr>from_col = 0, from_row = 1, blip = Some (Some ''rId1'')\<rparr>]),
      (''xl/media/image1.png'', Media ''png'')]
   = Inr \<lparr>saved = [], image_map = []\<rparr>"
  by code_simp

subsection \<open>Column codec\<close>

text \<open>
  C7: \<^verbatim>\<open>colnum_to_excel_col\<close> implements bijective base 26 on zero-based column indices.
  For every index \<open>n\<close> from 0 on the result is a string of the letters A to Z that is not
  empty and whose value, with the letters as the digits 1 to 26, is \<open>n + 1\<close>; and it is
  the only string with this value. In particular it is "A" for 0, "Z" for 25, "AA" for
  26, "ZZ" for 701 and "AAA" for 702.
\<close>

theorem colnum_bijective_base26:
  "(0 \<le> n \<longrightarrow> colnum_to_excel_col n \<noteq> []
              \<and> list_all is_upper (colnum_to_excel_col n)
              \<and> bijective26 0 (colnum_to_excel_col n) = Some (n + 1))
   \<and> (bijective26 0 s = Some (n + 1) \<longrightarrow> colnum_to_excel_col n = s)
   \<and> colnum_to_excel_col 0 = ''A''
   \<and> colnum_to_excel_col 25 = ''Z''
   \<and> colnum_to_excel_col 26 = ''AA''
   \<and> colnum_to_excel_col 701 = ''ZZ''
   \<and> colnum_to_excel_col 702 = ''AAA''"
proof (intro conjI impI)
  assume "0 \<le> n"
  then show "colnum_to_excel_col n \<noteq> []" by (rule colnum_nonempty)
  show "list_all is_upper (colnum_to_excel_col n)" by (rule colnum_letters)
  from \<open>0 \<le> n\<close> show "bijective26 0 (colnum_to_excel_col n) = Some (n + 1)"
    by (rule encode_value)
next
  assume "bijective26 0 s = Some (n + 1)"
  then show "colnum_to_excel_col n = s" by (rule value_unique)
qed (simp_all add: colnum_to_excel_col_def char_of_def)

theorem colnum_bijective_base26_witness:
  "(0::int) \<le> 27 \<and> colnum_to_excel_col 27 = ''AB''
   \<and> list_all is_upper ''AB'' \<and> bijective26 0 ''AB'' = Some (27 + 1)
   \<and> bijective26 0 ''ZY'' = Some (700 + 1) \<and> colnum_to_excel_col 700 = ''ZY''"
proof -
  have a: "colnum_to_excel_col 27 = ''AB''" by (simp add: colnum_to_excel_col_def char_of_def)
  have b: "bijective26 0 ''ZY'' = Some (700 + 1)" by (simp add: letter_digit_def is_upper_def)
  from colnum_bijective_base26 [of 27] a
  have c: "list_all is_upper ''AB'' \<and> bijective26 0 ''AB'' = Some (27 + 1)" by simp
  from colnum_bijective_base26 [of 700 "''ZY''"] b
  have "colnum_to_excel_col 700 = ''ZY''" by blast
  with a b c show ?thesis by simp
qed

text \<open>
  C8: for every index from 0 to 10000, decoding the letters of the index with the
  reference decoder of bijective base 26 gives the index back.
\<close>

theorem colnum_round_trip:
  "0 \<le> n \<Longrightarrow> n \<le> 10000 \<Longrightarrow> excel_col_to_colnum (colnum_to_excel_col n) = Some n"
proof -
  assume n: "0 \<le> n"
  from colnum_nonempty [OF n] obtain c cs where "colnum_to_excel_col n = c # cs"
    by (cases "colnum_to_excel_col n") auto
  with encode_value [OF n] show ?thesis by (simp add: excel_col_to_colnum_def)
qed

theorem colnum_round_trip_witness:
  "(0::int) \<le> 702 \<and> (702::int) \<le> 10000 \<and> colnum_to_excel_col 702 = ''AAA''
   \<and> excel_col_to_colnum ''AAA'' = Some 702"
  using colnum_round_trip [of 702]
  by (simp add: colnum_to_excel_col_def char_of_def)

subsection \<open>Grouping\<close>

text \<open>
  C3, as amended: the group id of a row is the number of rows, up to and including it,
  whose classification cell is not blank before the fill. Three consecutive rows of which
  only the first has a classification value, with question text on the first two rows
  only, give exactly one merge group, whose question is the first text, a newline and the
  second text, and whose original rows are the three consecutive row numbers, under two
  conditions: the three rows are followed by the end of the table or by a row with a
  classification value, and the integer cast of the sequence number succeeds on every
  group of the table.
\<close>

theorem melt_group_ids:
  "(i < length df \<longrightarrow>
      f_grp (df_filled df ! i) = length (filter (\<lambda>r. notna (r_cls r)) (take (Suc i) df)))
   \<and> (notna (r_cls r1) \<and> r_cls r2 = NaN \<and> r_cls r3 = NaN
        \<and> (case post of [] \<Rightarrow> True | r # _ \<Rightarrow> notna (r_cls r))
        \<and> r_question r1 = Some t1 \<and> r_question r2 = Some t2 \<and> r_question r3 = None
        \<and> seq_numbers_resolve (pre @ [r1, r2, r3] @ post)
       \<longrightarrow> (\<exists>gs g. melt_merged_rows (pre @ [r1, r2, r3] @ post) = Inr gs
              \<and> filter (\<lambda>g. set (original_row g)
                              \<inter> {int (length pre) + 2, int (length pre) + 3, int (length pre) + 4}
                            \<noteq> {}) gs = [g]
              \<and> g_question g = t1 @ [CHR 0x0A] @ t2
              \<and> original_row g
                  = [int (length pre) + 2, int (length pre) + 3, int (length pre) + 4]))"
proof (intro conjI impI)
  assume "i < length df"
  then show "f_grp (df_filled df ! i) = length (filter (\<lambda>r. notna (r_cls r)) (take (Suc i) df))"
    by (simp add: df_filled_nth_grp grp_ids_nth)
next
  let ?df = "pre @ [r1, r2, r3] @ post"
  let ?fr = "df_filled ?df"
  let ?p = "length pre"
  let ?k = "Suc (cnt pre)"
  let ?keys = "first_seen (map f_grp ?fr)"
  let ?rows = "{int ?p + 2, int ?p + 3, int ?p + 4}"
  assume h: "notna (r_cls r1) \<and> r_cls r2 = NaN \<and> r_cls r3 = NaN
        \<and> (case post of [] \<Rightarrow> True | r # _ \<Rightarrow> notna (r_cls r))
        \<and> r_question r1 = Some t1 \<and> r_question r2 = Some t2 \<and> r_question r3 = None
        \<and> seq_numbers_resolve ?df"
  then have cls: "notna (r_cls r1)" "r_cls r2 = NaN" "r_cls r3 = NaN"
    and post: "case post of [] \<Rightarrow> True | r # _ \<Rightarrow> notna (r_cls r)"
    and q: "r_question r1 = Some t1" "r_question r2 = Some t2" "r_question r3 = None"
    and ok: "seq_numbers_resolve ?df" by simp_all
  from melt_total [OF ok] obtain gs where gs: "melt_merged_rows ?df = Inr gs" ..
  have seg: "filter (\<lambda>r. f_grp r = ?k) ?fr = [?fr ! ?p, ?fr ! (?p + 1), ?fr ! (?p + 2)]"
    using segment_group [OF cls post, of pre] by simp
  have p_lt: "?p < length ?df" "?p + 1 < length ?df" "?p + 2 < length ?df" by simp_all
  have "?fr ! ?p \<in> set (filter (\<lambda>r. f_grp r = ?k) ?fr)" by (simp only: seg) simp
  then have a: "?fr ! ?p \<in> set ?fr" and b: "f_grp (?fr ! ?p) = ?k"
    unfolding set_filter by blast+
  from a have "f_grp (?fr ! ?p) \<in> set (map f_grp ?fr)" by (simp only: set_map) (rule imageI)
  then have "?k \<in> set (map f_grp ?fr)" by (simp only: b)
  then have "?k \<in> set ?keys" by simp
  then obtain j where j: "j < length ?keys" "?keys ! j = ?k" by (metis in_set_conv_nth)
  with gs have jg: "j < length gs" by (simp add: melt_length)
  from melt_nth [OF gs jg] j seg
  have cast: "cast_no (agg [?fr ! ?p, ?fr ! (?p + 1), ?fr ! (?p + 2)]) = Inr (gs ! j)" by simp
  have rows: "?df ! ?p = r1" "?df ! (?p + 1) = r2" "?df ! (?p + 2) = r3"
    by (simp_all add: nth_append)
  from cast_no_fields [OF cast]
  have quest: "g_question (gs ! j) = t1 @ [CHR 0x0A] @ t2"
    using p_lt rows q by (simp add: agg_def df_filled_nth join_lines_def dropna_def)
  from cast_no_fields [OF cast]
  have orig: "original_row (gs ! j) = [int ?p + 2, int ?p + 3, int ?p + 4]"
    using p_lt by (simp add: agg_def df_filled_nth)
  have "filter (\<lambda>g. set (original_row g) \<inter> ?rows \<noteq> {}) gs = [gs ! j]"
  proof (rule filter_singleton_nth [OF jg])
    show "set (original_row (gs ! j)) \<inter> ?rows \<noteq> {}" by (simp add: orig)
  next
    fix i' assume i': "i' < length gs" "i' \<noteq> j"
    show "\<not> set (original_row (gs ! i')) \<inter> ?rows \<noteq> {}"
    proof
      assume "set (original_row (gs ! i')) \<inter> ?rows \<noteq> {}"
      then obtain x where x: "x \<in> set (original_row (gs ! i'))" "x \<in> ?rows" by blast
      from x(2) have "x \<in> set (original_row (gs ! j))" by (simp add: orig)
      from groups_disjoint [OF gs i'(1) jg x(1) this] i'(2) show False by simp
    qed
  qed
  with gs quest orig
  show "\<exists>gs g. melt_merged_rows ?df = Inr gs
          \<and> filter (\<lambda>g. set (original_row g) \<inter> ?rows \<noteq> {}) gs = [g]
          \<and> g_question g = t1 @ [CHR 0x0A] @ t2
          \<and> original_row g = [int ?p + 2, int ?p + 3, int ?p + 4]"
    by blast
qed

theorem melt_group_ids_witness:
  "f_grp (df_filled
      [\<lparr>r_sheet = ''S'', r_cls = Str (ascii ''A''), r_item = Str (ascii ''x''), r_no = Num (Abs_num64 1),
        r_question = Some ''q0'', r_answer = Some ''a0''\<rparr>,
       \<lparr>r_sheet = ''S'', r_cls = Str (ascii ''B''), r_item = Str (ascii ''y''), r_no = Num (Abs_num64 2),
        r_question = Some ''q1'', r_answer = Some ''a1''\<rparr>,
       \<lparr>r_sheet = ''S'', r_cls = NaN, r_item = NaN, r_no = NaN,
        r_question = Some ''q2'', r_answer = None\<rparr>,
       \<lparr>r_sheet = ''S'', r_cls = NaN, r_item = NaN, r_no = NaN,
        r_question = None, r_answer = None\<rparr>,
       \<lparr>r_sheet = ''S'', r_cls = Str (ascii ''C''), r_item = Str (ascii ''z''), r_no = Num (Abs_num64 3),
        r_question = Some ''q4'', r_answer = Some ''a4''\<rparr>] ! 2) = 2
   \<and> seq_numbers_resolve
      [\<lparr>r_sheet = ''S'', r_cls = Str (ascii ''A''), r_item = Str (ascii ''x''), r_no = Num (Abs_num64 1),
        r_question = Some ''q0'', r_answer = Some ''a0''\<rparr>,
       \<lparr>r_sheet = ''S'', r_cls = Str (ascii ''B''), r_item = Str (ascii ''y''), r_no = Num (Abs_num64 2),
        r_question = Some ''q1'', r_answer = Some ''a1''\<rparr>,
       \<lparr>r_sheet = ''S'', r_cls = NaN, r_item = NaN, r_no = NaN,
        r_question = Some ''q2'', r_answer = None\<rparr>,
       \<lparr>r_sheet = ''S'', r_cls = NaN, r_item = NaN, r_no = NaN,
        r_question = None, r_answer = None\<rparr>,
       \<lparr>r_sheet = ''S'', r_cls = Str (ascii ''C''), r_item = Str (ascii ''z''), r_no = Num (Abs_num64 3),
        r_question = Some ''q4'', r_answer = Some ''a4''\<rparr>]
   \<and> (\<exists>gs g. melt_merged_rows
      [\<lparr>r_sheet = ''S'', r_cls = Str (ascii ''A''), r_item = Str (ascii ''x''), r_no = Num (Abs_num64 1),
        r_question = Some ''q0'', r_answer = Some ''a0''\<rparr>,
       \<lparr>r_sheet = ''S'', r_cls = Str (ascii ''B''), r_item = Str (ascii ''y''), r_no = Num (Abs_num64 2),
        r_question = Some ''q1'', r_answer = Some ''a1''\<rparr>,
       \<lparr>r_sheet = ''S'', r_cls = NaN, r_item = NaN, r_no = NaN,
        r_question = Some ''q2'', r_answer = None\<rparr>,
       \<lparr>r_sheet = ''S'', r_cls = NaN, r_item = NaN, r_no = NaN,
        r_question = None, r_answer = None\<rparr>,
       \<lparr>r_sheet = ''S'', r_cls = Str (ascii ''C''), r_item = Str (ascii ''z''), r_no = Num (Abs_num64 3),
        r_question = Some ''q4'', r_answer = Some ''a4''\<rparr>] = Inr gs
      \<and> filter (\<lambda>g. set (original_row g) \<inter> {3, 4, 5} \<noteq> {}) gs = [g]
      \<and> g_question g = ''q1'' @ [CHR 0x0A] @ ''q2''
      \<and> original_row g = [3, 4, 5])"
proof -
  let ?r0 = "\<lparr>r_sheet = ''S'', r_cls = Str (ascii ''A''), r_item = Str (ascii ''x''), r_no = Num (Abs_num64 1),
        r_question = Some ''q0'', r_answer = Some ''a0''\<rparr>"
  let ?r1 = "\<lparr>r_sheet = ''S'', r_cls = Str (ascii ''B''), r_item = Str (ascii ''y''), r_no = Num (Abs_num64 2),
        r_question = Some ''q1'', r_answer = Some ''a1''\<rparr>"
  let ?r2 = "\<lparr>r_sheet = ''S'', r_cls = NaN, r_item = NaN, r_no = NaN,
        r_question = Some ''q2'', r_answer = None\<rparr>"
  let ?r3 = "\<lparr>r_sheet = ''S'', r_cls = NaN, r_item = NaN, r_no = NaN,
        r_question = None, r_answer = None\<rparr>"
  let ?r4 = "\<lparr>r_sheet = ''S'', r_cls = Str (ascii ''C''), r_item = Str (ascii ''z''), r_no = Num (Abs_num64 3),
        r_question = Some ''q4'', r_answer = Some ''a4''\<rparr>"
  have ok: "seq_numbers_resolve ([?r0] @ [?r1, ?r2, ?r3] @ [?r4])"
    by (simp add: melt_eval)
  from melt_group_ids [where i = 2 and df = "[?r0] @ [?r1, ?r2, ?r3] @ [?r4]"
      and pre = "[?r0]" and ?r1.0 = ?r1 and ?r2.0 = ?r2 and ?r3.0 = ?r3 and post = "[?r4]"
      and ?t1.0 = "''q1''" and ?t2.0 = "''q2''"] ok
  show ?thesis by (simp add: notna_def)
qed

text \<open>
  C3 as stated fails without the two conditions. Three such rows with no sequence number
  give no record: the cast raises ValueError. Three such rows followed by a fourth row
  with a blank classification give one group of four original rows.
\<close>

theorem three_rows_without_conditions:
  "melt_merged_rows
     [\<lparr>r_sheet = ''S'', r_cls = Str (ascii ''A''), r_item = Str (ascii ''x''), r_no = NaN,
       r_question = Some ''q1'', r_answer = Some ''a1''\<rparr>,
      \<lparr>r_sheet = ''S'', r_cls = NaN, r_item = NaN, r_no = NaN,
       r_question = Some ''q2'', r_answer = None\<rparr>,
      \<lparr>r_sheet = ''S'', r_cls = NaN, r_item = NaN, r_no = NaN,
       r_question = None, r_answer = None\<rparr>] = Inl ValueError
   \<and> melt_merged_rows
     [\<lparr>r_sheet = ''S'', r_cls = Str (ascii ''A''), r_item = Str (ascii ''x''),
       r_no = Num (Abs_num64 1), r_question = Some ''q1'', r_answer = Some ''a1''\<rparr>,
      \<lparr>r_sheet = ''S'', r_cls = NaN, r_item = NaN, r_no = NaN,
       r_question = Some ''q2'', r_answer = None\<rparr>,
      \<lparr>r_sheet = ''S'', r_cls = NaN, r_item = NaN, r_no = NaN,
       r_question = None, r_answer = None\<rparr>,
      \<lparr>r_sheet = ''S'', r_cls = NaN, r_item = NaN, r_no = NaN,
       r_question = None, r_answer = None\<rparr>]
     = Inr [\<lparr>g_sheet = ''S'', g_cls = Str (ascii ''A''), g_item = Str (ascii ''x''), g_no = 1,
             g_question = ''q1'' @ [CHR 0x0A] @ ''q2'', g_answer = ''a1'',
             original_row = [2, 3, 4, 5]\<rparr>]"
  by (simp add: melt_eval)
subsection \<open>Original row numbers\<close>

text \<open>
  C1 at a workbook of two sheets with one data row each: on its sheet, the row of the
  second sheet is at position 1 and, with the header row, has number 2; the melter gives
  it the original row 3, its position in the concatenated table plus 2. The numbering
  does not start afresh on the second sheet.
\<close>

theorem original_row_continues_across_sheets:
  "on_sheet_row_numbers
     [(''A'', [\<lparr>cls = Str (ascii ''c1''), item = Str (ascii ''i1''), no = Num (Abs_num64 1),
                question = Some ''q1'', answer = Some ''a1''\<rparr>]),
      (''B'', [\<lparr>cls = Str (ascii ''c2''), item = Str (ascii ''i2''), no = Num (Abs_num64 1),
                question = Some ''q2'', answer = Some ''a2''\<rparr>])] = [2, 2]
   \<and> organized_df
     [(''A'', [\<lparr>cls = Str (ascii ''c1''), item = Str (ascii ''i1''), no = Num (Abs_num64 1),
                question = Some ''q1'', answer = Some ''a1''\<rparr>]),
      (''B'', [\<lparr>cls = Str (ascii ''c2''), item = Str (ascii ''i2''), no = Num (Abs_num64 1),
                question = Some ''q2'', answer = Some ''a2''\<rparr>])]
     = Inr [\<lparr>g_sheet = ''A'', g_cls = Str (ascii ''c1''), g_item = Str (ascii ''i1''), g_no = 1,
              g_question = ''q1'', g_answer = ''a1'', original_row = [2]\<rparr>,
            \<lparr>g_sheet = ''B'', g_cls = Str (ascii ''c2''), g_item = Str (ascii ''i2''), g_no = 1,
              g_question = ''q2'', g_answer = ''a2'', original_row = [3]\<rparr>]"
  by (simp add: melt_eval on_sheet_row_numbers_def)

subsection \<open>Forward fill\<close>

text \<open>
  C2, as amended: the fill runs over the concatenated table. A cell of the three
  identifying columns holds, after the fill, the nearest value at or above it in the
  concatenation that is not blank, whichever sheet that value is on (and stays blank
  when there is none). The fill coincides with a fill of every sheet on its own when
  every sheet has a value in the column on its first row.
\<close>

theorem ffill_over_concatenation:
  assumes "df_all excel_file = Inr df"
  shows "(k < length df \<longrightarrow>
            f_cls (df_filled df ! k) = last_valid NaN (take (Suc k) (map r_cls df))
          \<and> f_item (df_filled df ! k) = last_valid NaN (take (Suc k) (map r_item df))
          \<and> f_no (df_filled df ! k) = last_valid NaN (take (Suc k) (map r_no df)))
       \<and> (first_rows_filled cls excel_file \<longrightarrow>
            map f_cls (df_filled df) = ffill_within_sheets cls excel_file)
       \<and> (first_rows_filled item excel_file \<longrightarrow>
            map f_item (df_filled df) = ffill_within_sheets item excel_file)
       \<and> (first_rows_filled no excel_file \<longrightarrow>
            map f_no (df_filled df) = ffill_within_sheets no excel_file)"
proof (intro conjI impI)
  assume k: "k < length df"
  then show "f_cls (df_filled df ! k) = last_valid NaN (take (Suc k) (map r_cls df))"
    by (simp add: df_filled_nth ffill_def ffill_from_nth)
  from k show "f_item (df_filled df ! k) = last_valid NaN (take (Suc k) (map r_item df))"
    by (simp add: df_filled_nth ffill_def ffill_from_nth)
  from k show "f_no (df_filled df ! k) = last_valid NaN (take (Suc k) (map r_no df))"
    by (simp add: df_filled_nth ffill_def ffill_from_nth)
next
  assume "first_rows_filled cls excel_file"
  then show "map f_cls (df_filled df) = ffill_within_sheets cls excel_file"
    by (simp add: df_filled_columns df_all_column [OF assms] ffill_sheets)
next
  assume "first_rows_filled item excel_file"
  then show "map f_item (df_filled df) = ffill_within_sheets item excel_file"
    by (simp add: df_filled_columns df_all_column [OF assms] ffill_sheets)
next
  assume "first_rows_filled no excel_file"
  then show "map f_no (df_filled df) = ffill_within_sheets no excel_file"
    by (simp add: df_filled_columns df_all_column [OF assms] ffill_sheets)
qed

theorem ffill_over_concatenation_witness:
  "df_all [(''A'', [\<lparr>cls = Str (ascii ''c1''), item = Str (ascii ''i1''), no = Num (Abs_num64 1),
                     question = Some ''q1'', answer = Some ''a1''\<rparr>,
                   \<lparr>cls = NaN, item = NaN, no = NaN,
                     question = Some ''q2'', answer = None\<rparr>]),
           (''B'', [\<lparr>cls = Str (ascii ''c2''), item = Str (ascii ''i2''), no = Num (Abs_num64 2),
                     question = Some ''q3'', answer = Some ''a3''\<rparr>,
                   \<lparr>cls = NaN, item = NaN, no = NaN,
                     question = Some ''q4'', answer = None\<rparr>])]
     = Inr [\<lparr>r_sheet = ''A'', r_cls = Str (ascii ''c1''), r_item = Str (ascii ''i1''), r_no = Num (Abs_num64 1),
              r_question = Some ''q1'', r_answer = Some ''a1''\<rparr>,
            \<lparr>r_sheet = ''A'', r_cls = NaN, r_item = NaN, r_no = NaN,
              r_question = Some ''q2'', r_answer = None\<rparr>,
            \<lparr>r_sheet = ''B'', r_cls = Str (ascii ''c2''), r_item = Str (ascii ''i2''), r_no = Num (Abs_num64 2),
              r_question = Some ''q3'', r_answer = Some ''a3''\<rparr>,
            \<lparr>r_sheet = ''B'', r_cls = NaN, r_item = NaN, r_no = NaN,
              r_question = Some ''q4'', r_answer = None\<rparr>]
   \<and> first_rows_filled cls
          [(''A'', [\<lparr>cls = Str (ascii ''c1''), item = Str (ascii ''i1''), no = Num (Abs_num64 1),
                     question = Some ''q1'', answer = Some ''a1''\<rparr>,
                   \<lparr>cls = NaN, item = NaN, no = NaN,
                     question = Some ''q2'', answer = None\<rparr>]),
           (''B'', [\<lparr>cls = Str (ascii ''c2''), item = Str (ascii ''i2''), no = Num (Abs_num64 2),
                     question = Some ''q3'', answer = Some ''a3''\<rparr>,
                   \<lparr>cls = NaN, item = NaN, no = NaN,
                     question = Some ''q4'', answer = None\<rparr>])]
   \<and> first_rows_filled item
          [(''A'', [\<lparr>cls = Str (ascii ''c1''), item = Str (ascii ''i1''), no = Num (Abs_num64 1),
                     question = Some ''q1'', answer = Some ''a1''\<rparr>,
                   \<lparr>cls = NaN, item = NaN, no = NaN,
                     question = Some ''q2'', answer = None\<rparr>]),
           (''B'', [\<lparr>cls = Str (ascii ''c2''), item = Str (ascii ''i2''), no = Num (Abs_num64 2),
                     question = Some ''q3'', answer = Some ''a3''\<rparr>,
                   \<lparr>cls = NaN, item = NaN, no = NaN,
                     question = Some ''q4'', answer = None\<rparr>])]
   \<and> first_rows_filled no
          [(''A'', [\<lparr>cls = Str (ascii ''c1''), item = Str (ascii ''i1''), no = Num (Abs_num64 1),
                     question = Some ''q1'', answer = Some ''a1''\<rparr>,
                   \<lparr>cls = NaN, item = NaN, no = NaN,
                     question = Some ''q2'', answer = None\<rparr>]),
           (''B'', [\<lparr>cls = Str (ascii ''c2''), item = Str (ascii ''i2''), no = Num (Abs_num64 2),
                     question = Some ''q3'', answer = Some ''a3''\<rparr>,
                   \<lparr>cls = NaN, item = NaN, no = NaN,
                     question = Some ''q4'', answer = None\<rparr>])]
   \<and> f_item (df_filled
            [\<lparr>r_sheet = ''A'', r_cls = Str (ascii ''c1''), r_item = Str (ascii ''i1''), r_no = Num (Abs_num64 1),
              r_question = Some ''q1'', r_answer = Some ''a1''\<rparr>,
            \<lparr>r_sheet = ''A'', r_cls = NaN, r_item = NaN, r_no = NaN,
              r_question = Some ''q2'', r_answer = None\<rparr>,
            \<lparr>r_sheet = ''B'', r_cls = Str (ascii ''c2''), r_item = Str (ascii ''i2''), r_no = Num (Abs_num64 2),
              r_question = Some ''q3'', r_answer = Some ''a3''\<rparr>,
            \<lparr>r_sheet = ''B'', r_cls = NaN, r_item = NaN, r_no = NaN,
              r_question = Some ''q4'', r_answer = None\<rparr>] ! 3) = Str (ascii ''i2'')
   \<and> map f_no (df_filled
            [\<lparr>r_sheet = ''A'', r_cls = Str (ascii ''c1''), r_item = Str (ascii ''i1''), r_no = Num (Abs_num64 1),
              r_question = Some ''q1'', r_answer = Some ''a1''\<rparr>,
            \<lparr>r_sheet = ''A'', r_cls = NaN, r_item = NaN, r_no = NaN,
              r_question = Some ''q2'', r_answer = None\<rparr>,
            \<lparr>r_sheet = ''B'', r_cls = Str (ascii ''c2''), r_item = Str (ascii ''i2''), r_no = Num (Abs_num64 2),
              r_question = Some ''q3'', r_answer = Some ''a3''\<rparr>,
            \<lparr>r_sheet = ''B'', r_cls = NaN, r_item = NaN, r_no = NaN,
              r_question = Some ''q4'', r_answer = None\<rparr>])
       = [Num (Abs_num64 1), Num (Abs_num64 1), Num (Abs_num64 2), Num (Abs_num64 2)]"
proof -
  let ?x = "[(''A'', [\<lparr>cls = Str (ascii ''c1''), item = Str (ascii ''i1''), no = Num (Abs_num64 1),
                     question = Some ''q1'', answer = Some ''a1''\<rparr>,
                   \<lparr>cls = NaN, item = NaN, no = NaN,
                     question = Some ''q2'', answer = None\<rparr>]),
           (''B'', [\<lparr>cls = Str (ascii ''c2''), item = Str (ascii ''i2''), no = Num (Abs_num64 2),
                     question = Some ''q3'', answer = Some ''a3''\<rparr>,
                   \<lparr>cls = NaN, item = NaN, no = NaN,
                     question = Some ''q4'', answer = None\<rparr>])]"
  let ?d = "[\<lparr>r_sheet = ''A'', r_cls = Str (ascii ''c1''), r_item = Str (ascii ''i1''), r_no = Num (Abs_num64 1),
              r_question = Some ''q1'', r_answer = Some ''a1''\<rparr>,
            \<lparr>r_sheet = ''A'', r_cls = NaN, r_item = NaN, r_no = NaN,
              r_question = Some ''q2'', r_answer = None\<rparr>,
            \<lparr>r_sheet = ''B'', r_cls = Str (ascii ''c2''), r_item = Str (ascii ''i2''), r_no = Num (Abs_num64 2),
              r_question = Some ''q3'', r_answer = Some ''a3''\<rparr>,
            \<lparr>r_sheet = ''B'', r_cls = NaN, r_item = NaN, r_no = NaN,
              r_question = Some ''q4'', r_answer = None\<rparr>]"
  have d: "df_all ?x = Inr ?d" by (simp add: df_all_def attach_sheet_def)
  have f: "first_rows_filled cls ?x" "first_rows_filled item ?x" "first_rows_filled no ?x"
    by (simp_all add: first_rows_filled_def notna_def)
  from ffill_over_concatenation [OF d, of 3] d f show ?thesis
    by (simp add: last_valid_def notna_def ffill_within_sheets_def ffill_def Let_def)
qed

text \<open>
  C2 as stated fails: the second sheet has no item and no sequence number of its own,
  and its row is filled with those of the first sheet, which also reach the record.
\<close>

theorem ffill_crosses_sheet_boundary:
  "df_all [(''A'', [\<lparr>cls = Str (ascii ''c1''), item = Str (ascii ''i1''), no = Num (Abs_num64 1),
                     question = Some ''q1'', answer = Some ''a1''\<rparr>]),
           (''B'', [\<lparr>cls = Str (ascii ''c2''), item = NaN, no = NaN,
                     question = Some ''q2'', answer = Some ''a2''\<rparr>])]
     = Inr [\<lparr>r_sheet = ''A'', r_cls = Str (ascii ''c1''), r_item = Str (ascii ''i1''), r_no = Num (Abs_num64 1),
              r_question = Some ''q1'', r_answer = Some ''a1''\<rparr>,
            \<lparr>r_sheet = ''B'', r_cls = Str (ascii ''c2''), r_item = NaN, r_no = NaN,
              r_question = Some ''q2'', r_answer = Some ''a2''\<rparr>]
   \<and> map f_item (df_filled
           [\<lparr>r_sheet = ''A'', r_cls = Str (ascii ''c1''), r_item = Str (ascii ''i1''), r_no = Num (Abs_num64 1),
              r_question = Some ''q1'', r_answer = Some ''a1''\<rparr>,
            \<lparr>r_sheet = ''B'', r_cls = Str (ascii ''c2''), r_item = NaN, r_no = NaN,
              r_question = Some ''q2'', r_answer = Some ''a2''\<rparr>])
       = [Str (ascii ''i1''), Str (ascii ''i1'')]
   \<and> ffill_within_sheets item
          [(''A'', [\<lparr>cls = Str (ascii ''c1''), item = Str (ascii ''i1''), no = Num (Abs_num64 1),
                     question = Some ''q1'', answer = Some ''a1''\<rparr>]),
           (''B'', [\<lparr>cls = Str (ascii ''c2''), item = NaN, no = NaN,
                     question = Some ''q2'', answer = Some ''a2''\<rparr>])]
       = [Str (ascii ''i1''), NaN]
   \<and> organized_df
          [(''A'', [\<lparr>cls = Str (ascii ''c1''), item = Str (ascii ''i1''), no = Num (Abs_num64 1),
                     question = Some ''q1'', answer = Some ''a1''\<rparr>]),
           (''B'', [\<lparr>cls = Str (ascii ''c2''), item = NaN, no = NaN,
                     question = Some ''q2'', answer = Some ''a2''\<rparr>])]
       = Inr [\<lparr>g_sheet = ''A'', g_cls = Str (ascii ''c1''), g_item = Str (ascii ''i1''), g_no = 1,
                g_question = ''q1'', g_answer = ''a1'', original_row = [2]\<rparr>,
              \<lparr>g_sheet = ''B'', g_cls = Str (ascii ''c2''), g_item = Str (ascii ''i1''), g_no = 1,
                g_question = ''q2'', g_answer = ''a2'', original_row = [3]\<rparr>]"
  by (simp add: melt_eval ffill_within_sheets_def)

subsection \<open>The cast of the sequence number\<close>



subsection \<open>A blank classification cell on the first row\<close>




subsection \<open>Save names\<close>

text \<open>
  C9, as amended: the save name is the sheet name, an underscore, the cell label, an
  underscore and the file name of the media part. Two images of one sheet anchored at
  different cells have different save names, whatever their file names; and two images
  with the same file name have different save names as soon as they differ in the sheet
  or in the cell.
\<close>

theorem save_name_distinct:
  "save_name sheet_name cell image_file = sheet_name @ ''_'' @ cell @ ''_'' @ image_file
   \<and> (0 \<le> col1 \<and> 0 \<le> col2 \<and> (col1, row1) \<noteq> (col2, row2)
        \<longrightarrow> save_name sheet (cell_name col1 row1) f1 \<noteq> save_name sheet (cell_name col2 row2) f2)
   \<and> (0 \<le> col1 \<and> 0 \<le> col2 \<and> (sheet1, col1, row1) \<noteq> (sheet2, col2, row2)
        \<longrightarrow> save_name sheet1 (cell_name col1 row1) f \<noteq> save_name sheet2 (cell_name col2 row2) f)"
proof (intro conjI impI)
  show "save_name sheet_name cell image_file = sheet_name @ ''_'' @ cell @ ''_'' @ image_file"
    by (simp add: save_name_def)
next
  assume "0 \<le> col1 \<and> 0 \<le> col2 \<and> (col1, row1) \<noteq> (col2, row2)"
  then show "save_name sheet (cell_name col1 row1) f1 \<noteq> save_name sheet (cell_name col2 row2) f2"
    using save_name_same_sheet [of col1 col2 sheet row1 f1 row2 f2] by auto
next
  assume "0 \<le> col1 \<and> 0 \<le> col2 \<and> (sheet1, col1, row1) \<noteq> (sheet2, col2, row2)"
  then show "save_name sheet1 (cell_name col1 row1) f \<noteq> save_name sheet2 (cell_name col2 row2) f"
    using save_name_same_file [of col1 col2 sheet1 row1 f sheet2 row2] by auto
qed

theorem save_name_distinct_witness:
  "(0::int) \<le> 0 \<and> (0::int) \<le> 26 \<and> ((0::int), (4::int)) \<noteq> (26, 4)
   \<and> save_name ''S1'' (cell_name 0 4) ''image1.png'' = ''S1_A5_image1.png''
   \<and> save_name ''S1'' (cell_name 26 4) ''image2.png'' = ''S1_AA5_image2.png''
   \<and> save_name ''S1'' (cell_name 0 4) ''image1.png''
       \<noteq> save_name ''S1'' (cell_name 26 4) ''image2.png''
   \<and> (''S1'', (0::int), (4::int)) \<noteq> (''S2'', 0, 4)
   \<and> save_name ''S1'' (cell_name 0 4) ''image1.png''
       \<noteq> save_name ''S2'' (cell_name 0 4) ''image1.png''"
proof -
  have a: "save_name ''S1'' (cell_name 0 4) ''image1.png''
       \<noteq> save_name ''S1'' (cell_name 26 4) ''image2.png''"
    using save_name_distinct [where ?col1.0 = 0 and ?col2.0 = 26 and ?row1.0 = 4 and ?row2.0 = 4
        and sheet = "''S1''" and ?f1.0 = "''image1.png''" and ?f2.0 = "''image2.png''"]
    by simp
  have b: "save_name ''S1'' (cell_name 0 4) ''image1.png''
       \<noteq> save_name ''S2'' (cell_name 0 4) ''image1.png''"
    using save_name_distinct [where ?col1.0 = 0 and ?col2.0 = 0 and ?row1.0 = 4 and ?row2.0 = 4
        and ?sheet1.0 = "''S1''" and ?sheet2.0 = "''S2''" and f = "''image1.png''"]
    by simp
  have c: "save_name ''S1'' (cell_name 0 4) ''image1.png'' = ''S1_A5_image1.png''"
    "save_name ''S1'' (cell_name 26 4) ''image2.png'' = ''S1_AA5_image2.png''"
    by (simp_all add: image_eval)
  from a b c show ?thesis by simp
qed

text \<open>
  C9 as stated fails: the cells A2 and B3 are different, and the image at A2 of sheet
  \<^verbatim>\<open>S\<close> with the file name \<^verbatim>\<open>B3_x.png\<close> gets the save name of the image at B3 of sheet
  \<^verbatim>\<open>S_A2\<close> with the file name \<^verbatim>\<open>x.png\<close>.
\<close>

theorem save_name_collision:
  "cell_name 0 1 = ''A2'' \<and> cell_name 1 2 = ''B3'' \<and> cell_name 0 1 \<noteq> cell_name 1 2
   \<and> save_name ''S'' (cell_name 0 1) ''B3_x.png'' = save_name ''S_A2'' (cell_name 1 2) ''x.png''"
  by (simp add: image_eval)

subsection \<open>Broken links\<close>

text \<open>
  C4 at a package in which the workbook names its sheet under the relationship id
  \<^verbatim>\<open>rId1\<close> while the workbook relationship file lists the worksheet under \<^verbatim>\<open>rId2\<close>: the
  sheet has no worksheet relationship. The scan of the drawing finds the relationship
  \<^verbatim>\<open>rId2\<close>, looks its id up in the sheet names and raises \<^verbatim>\<open>KeyError\<close>.
\<close>

theorem orphan_sheet_relationship_raises:
  "extract_images
     [(''xl/workbook.xml'', Workbook [\<lparr>sh_rid = ''rId1'', sh_name = ''Sheet1''\<rparr>]),
      (''xl/_rels/workbook.xml.rels'',
         Relationships [\<lparr>rel_Type = ''http://schemas.openxmlformats.org/officeDocument/2006/relationships/worksheet'',
                          rel_Id = ''rId2'', rel_Target = ''worksheets/sheet1.xml''\<rparr>]),
      (''xl/worksheets/_rels/sheet1.xml.rels'',
         Relationships [\<lparr>rel_Type = ''http://schemas.openxmlformats.org/officeDocument/2006/relationships/drawing'',
                          rel_Id = ''rId1'', rel_Target = ''../drawings/drawing1.xml''\<rparr>]),
      (''xl/drawings/_rels/drawing1.xml.rels'',
         Relationships [\<lparr>rel_Type = ''http://schemas.openxmlformats.org/officeDocument/2006/relationships/image'',
                          rel_Id = ''rId1'', rel_Target = ''../media/image1.png''\<rparr>]),
      (''xl/drawings/drawing1.xml'',
         Drawing [\<lparr>from_col = 0, from_row = 1, blip = Some (Some ''rId1'')\<rparr>]),
      (''xl/media/image1.png'', Media ''png'')]
   = Inl KeyError"
  by code_simp

subsection \<open>Groups and images\<close>

text \<open>
  C10, as amended: the \<^verbatim>\<open>original_row\<close> lists of different merge groups have no row in
  common, so a key (sheet, row) of \<^verbatim>\<open>image_map\<close> passes the test of the record loop for at
  most one record; and where the path lists of different keys share no path, a saved
  path is in the image list of at most one record.
\<close>

theorem image_joins_one_record:
  assumes "melt_merged_rows df = Inr gs" and "i < length gs" and "j < length gs"
  shows "(i \<noteq> j \<longrightarrow> set (original_row (gs ! i)) \<inter> set (original_row (gs ! j)) = {})
       \<and> (joins key (gs ! i) \<and> joins key (gs ! j) \<longrightarrow> i = j)
       \<and> (keyed_apart m \<and> p \<in> set (image_urls m (gs ! i)) \<and> p \<in> set (image_urls m (gs ! j))
            \<longrightarrow> i = j)"
proof (intro conjI impI)
  assume "i \<noteq> j"
  then show "set (original_row (gs ! i)) \<inter> set (original_row (gs ! j)) = {}"
    using groups_disjoint [OF assms] by blast
next
  assume "joins key (gs ! i) \<and> joins key (gs ! j)"
  then show "i = j"
    using groups_disjoint [OF assms, of "snd key"] by (simp add: joins_def)
next
  assume a: "keyed_apart m \<and> p \<in> set (image_urls m (gs ! i)) \<and> p \<in> set (image_urls m (gs ! j))"
  then obtain e e' where e: "e \<in> set m" "joins (fst e) (gs ! i)" "p \<in> set (snd e)"
    and e': "e' \<in> set m" "joins (fst e') (gs ! j)" "p \<in> set (snd e')"
    by (auto simp: image_urls_mem)
  from a e e' have "fst e = fst e'" unfolding keyed_apart_def by blast
  with e e' show "i = j"
    using groups_disjoint [OF assms, of "snd (fst e)"] by (simp add: joins_def)
qed

theorem image_joins_one_record_witness:
  "melt_merged_rows
     [\<lparr>r_sheet = ''S'', r_cls = Str (ascii ''c1''), r_item = Str (ascii ''i1''), r_no = Num (Abs_num64 1),
       r_question = Some ''q1'', r_answer = Some ''a1''\<rparr>,
      \<lparr>r_sheet = ''S'', r_cls = NaN, r_item = NaN, r_no = NaN,
       r_question = Some ''q2'', r_answer = None\<rparr>,
      \<lparr>r_sheet = ''S'', r_cls = Str (ascii ''c2''), r_item = Str (ascii ''i2''), r_no = Num (Abs_num64 2),
       r_question = Some ''q3'', r_answer = Some ''a3''\<rparr>]
     = Inr [\<lparr>g_sheet = ''S'', g_cls = Str (ascii ''c1''), g_item = Str (ascii ''i1''), g_no = 1,
              g_question = ''q1'' @ [CHR 0x0A] @ ''q2'', g_answer = ''a1'',
              original_row = [2, 3]\<rparr>,
            \<lparr>g_sheet = ''S'', g_cls = Str (ascii ''c2''), g_item = Str (ascii ''i2''), g_no = 2,
              g_question = ''q3'', g_answer = ''a3'', original_row = [4]\<rparr>]
   \<and> keyed_apart [((''S'', 3), [''json_output/image/S_A3_image1.png'']),
                  ((''S'', 4), [''json_output/image/S_A4_image2.png''])]
   \<and> joins (''S'', 3)
        \<lparr>g_sheet = ''S'', g_cls = Str (ascii ''c1''), g_item = Str (ascii ''i1''), g_no = 1,
          g_question = ''q1'' @ [CHR 0x0A] @ ''q2'', g_answer = ''a1'',
          original_row = [2, 3]\<rparr>
   \<and> \<not> joins (''S'', 3)
        \<lparr>g_sheet = ''S'', g_cls = Str (ascii ''c2''), g_item = Str (ascii ''i2''), g_no = 2,
          g_question = ''q3'', g_answer = ''a3'', original_row = [4]\<rparr>
   \<and> ''json_output/image/S_A3_image1.png''
       \<in> set (image_urls [((''S'', 3), [''json_output/image/S_A3_image1.png'']),
                            ((''S'', 4), [''json_output/image/S_A4_image2.png''])]
               \<lparr>g_sheet = ''S'', g_cls = Str (ascii ''c1''), g_item = Str (ascii ''i1''), g_no = 1,
                 g_question = ''q1'' @ [CHR 0x0A] @ ''q2'', g_answer = ''a1'',
                 original_row = [2, 3]\<rparr>)
   \<and> ''json_output/image/S_A3_image1.png''
       \<notin> set (image_urls [((''S'', 3), [''json_output/image/S_A3_image1.png'']),
                            ((''S'', 4), [''json_output/image/S_A4_image2.png''])]
               \<lparr>g_sheet = ''S'', g_cls = Str (ascii ''c2''), g_item = Str (ascii ''i2''), g_no = 2,
                 g_question = ''q3'', g_answer = ''a3'', original_row = [4]\<rparr>)"
proof -
  let ?d = "[\<lparr>r_sheet = ''S'', r_cls = Str (ascii ''c1''), r_item = Str (ascii ''i1''), r_no = Num (Abs_num64 1),
       r_question = Some ''q1'', r_answer = Some ''a1''\<rparr>,
      \<lparr>r_sheet = ''S'', r_cls = NaN, r_item = NaN, r_no = NaN,
       r_question = Some ''q2'', r_answer = None\<rparr>,
      \<lparr>r_sheet = ''S'', r_cls = Str (ascii ''c2''), r_item = Str (ascii ''i2''), r_no = Num (Abs_num64 2),
       r_question = Some ''q3'', r_answer = Some ''a3''\<rparr>]"
  let ?g0 = "\<lparr>g_sheet = ''S'', g_cls = Str (ascii ''c1''), g_item = Str (ascii ''i1''), g_no = 1,
              g_question = ''q1'' @ [CHR 0x0A] @ ''q2'', g_answer = ''a1'',
              original_row = [2, 3]\<rparr>"
  let ?g1 = "\<lparr>g_sheet = ''S'', g_cls = Str (ascii ''c2''), g_item = Str (ascii ''i2''), g_no = 2,
              g_question = ''q3'', g_answer = ''a3'', original_row = [4]\<rparr>"
  let ?m = "[((''S'', 3::int), [''json_output/image/S_A3_image1.png'']),
            ((''S'', 4), [''json_output/image/S_A4_image2.png''])]"
  let ?p = "''json_output/image/S_A3_image1.png''"
  have melt: "melt_merged_rows ?d = Inr [?g0, ?g1]" by (simp add: melt_eval)
  have apart: "keyed_apart ?m" by (simp add: keyed_apart_def)
  have j0: "joins (''S'', 3) ?g0" by (simp add: joins_def)
  have p0: "?p \<in> set (image_urls ?m ?g0)" by (simp add: image_urls_def joins_def)
  from image_joins_one_record [OF melt, of 0 1 "(''S'', 3)" ?m ?p] j0 apart p0
  have "\<not> joins (''S'', 3) ?g1" "?p \<notin> set (image_urls ?m ?g1)" by auto
  with melt apart j0 p0 show ?thesis by simp
qed

text \<open>
  C10 as stated fails for saved paths: two images of different sheets that get the same
  save name are registered under different keys with the same path, and the path is in
  the image lists of two records.
\<close>

theorem saved_path_in_two_records:
  "extract_images
     [(''xl/workbook.xml'', Workbook [\<lparr>sh_rid = ''rId1'', sh_name = ''S''\<rparr>,
                                      \<lparr>sh_rid = ''rId2'', sh_name = ''S_A2''\<rparr>]),
      (''xl/_rels/workbook.xml.rels'',
         Relationships [\<lparr>rel_Type = ''http://schemas.openxmlformats.org/officeDocument/2006/relationships/worksheet'',
                          rel_Id = ''rId1'', rel_Target = ''worksheets/sheet1.xml''\<rparr>,
                        \<lparr>rel_Type = ''http://schemas.openxmlformats.org/officeDocument/2006/relationships/worksheet'',
                          rel_Id = ''rId2'', rel_Target = ''worksheets/sheet2.xml''\<rparr>]),
      (''xl/worksheets/_rels/sheet1.xml.rels'',
         Relationships [\<lparr>rel_Type = ''http://schemas.openxmlformats.org/officeDocument/2006/relationships/drawing'',
                          rel_Id = ''rId1'', rel_Target = ''../drawings/drawing1.xml''\<rparr>]),
      (''xl/worksheets/_rels/sheet2.xml.rels'',
         Relationships [\<lparr>rel_Type = ''http://schemas.openxmlformats.org/officeDocument/2006/relationships/drawing'',
                          rel_Id = ''rId1'', rel_Target = ''../drawings/drawing2.xml''\<rparr>]),
      (''xl/drawings/_rels/drawing1.xml.rels'',
         Relationships [\<lparr>rel_Type = ''http://schemas.openxmlformats.org/officeDocument/2006/relationships/image'',
                          rel_Id = ''rId1'', rel_Target = ''../media/B3_x.png''\<rparr>]),
      (''xl/drawings/_rels/drawing2.xml.rels'',
         Relationships [\<lparr>rel_Type = ''http://schemas.openxmlformats.org/officeDocument/2006/relationships/image'',
                          rel_Id = ''rId1'', rel_Target = ''../media/x.png''\<rparr>]),
      (''xl/drawings/drawing1.xml'',
         Drawing [\<lparr>from_col = 0, from_row = 1, blip = Some (Some ''rId1'')\<rparr>]),
      (''xl/drawings/drawing2.xml'',
         Drawing [\<lparr>from_col = 1, from_row = 2, blip = Some (Some ''rId1'')\<rparr>]),
      (''xl/media/B3_x.png'', Media ''png1''),
      (''xl/media/x.png'', Media ''png2'')]
     = Inr \<lparr>saved = [''S_A2_B3_x.png'', ''S_A2_B3_x.png''],
            image_map = [((''S'', 2), [''json_output/image/S_A2_B3_x.png'']),
                         ((''S_A2'', 3), [''json_output/image/S_A2_B3_x.png''])]\<rparr>
   \<and> organized_df
       [(''S'', [\<lparr>cls = Str (ascii ''c1''), item = Str (ascii ''i1''), no = Num (Abs_num64 1),
                  question = Some ''q1'', answer = Some ''a1''\<rparr>]),
        (''S_A2'', [\<lparr>cls = Str (ascii ''c2''), item = Str (ascii ''i2''), no = Num (Abs_num64 1),
                     question = Some ''q2'', answer = Some ''a2''\<rparr>])]
     = Inr [\<lparr>g_sheet = ''S'', g_cls = Str (ascii ''c1''), g_item = Str (ascii ''i1''), g_no = 1,
              g_question = ''q1'', g_answer = ''a1'', original_row = [2]\<rparr>,
            \<lparr>g_sheet = ''S_A2'', g_cls = Str (ascii ''c2''), g_item = Str (ascii ''i2''), g_no = 1,
              g_question = ''q2'', g_answer = ''a2'', original_row = [3]\<rparr>]
   \<and> records [((''S'', 2), [''json_output/image/S_A2_B3_x.png'']),
               ((''S_A2'', 3), [''json_output/image/S_A2_B3_x.png''])]
         [\<lparr>g_sheet = ''S'', g_cls = Str (ascii ''c1''), g_item = Str (ascii ''i1''), g_no = 1,
              g_question = ''q1'', g_answer = ''a1'', original_row = [2]\<rparr>,
          \<lparr>g_sheet = ''S_A2'', g_cls = Str (ascii ''c2''), g_item = Str (ascii ''i2''), g_no = 1,
              g_question = ''q2'', g_answer = ''a2'', original_row = [3]\<rparr>]
     = [(\<lparr>g_sheet = ''S'', g_cls = Str (ascii ''c1''), g_item = Str (ascii ''i1''), g_no = 1,
              g_question = ''q1'', g_answer = ''a1'', original_row = [2]\<rparr>,
         [''json_output/image/S_A2_B3_x.png'']),
        (\<lparr>g_sheet = ''S_A2'', g_cls = Str (ascii ''c2''), g_item = Str (ascii ''i2''), g_no = 1,
              g_question = ''q2'', g_answer = ''a2'', original_row = [3]\<rparr>,
         [''json_output/image/S_A2_B3_x.png''])]"
proof (intro conjI)
  show "extract_images
     [(''xl/workbook.xml'', Workbook [\<lparr>sh_rid = ''rId1'', sh_name = ''S''\<rparr>,
                                      \<lparr>sh_rid = ''rId2'', sh_name = ''S_A2''\<rparr>]),
      (''xl/_rels/workbook.xml.rels'',
         Relationships [\<lparr>rel_Type = ''http://schemas.openxmlformats.org/officeDocument/2006/relationships/worksheet'',
                          rel_Id = ''rId1'', rel_Target = ''worksheets/sheet1.xml''\<rparr>,
                        \<lparr>rel_Type = ''http://schemas.openxmlformats.org/officeDocument/2006/relationships/worksheet'',
                          rel_Id = ''rId2'', rel_Target = ''worksheets/sheet2.xml''\<rparr>]),
      (''xl/worksheets/_rels/sheet1.xml.rels'',
         Relationships [\<lparr>rel_Type = ''http://schemas.openxmlformats.org/officeDocument/2006/relationships/drawing'',
                          rel_Id = ''rId1'', rel_Target = ''../drawings/drawing1.xml''\<rparr>]),
      (''xl/worksheets/_rels/sheet2.xml.rels'',
         Relationships [\<lparr>rel_Type = ''http://schemas.openxmlformats.org/officeDocument/2006/relationships/drawing'',
                          rel_Id = ''rId1'', rel_Target = ''../drawings/drawing2.xml''\<rparr>]),
      (''xl/drawings/_rels/drawing1.xml.rels'',
         Relationships [\<lparr>rel_Type = ''http://schemas.openxmlformats.org/officeDocument/2006/relationships/image'',
                          rel_Id = ''rId1'', rel_Target = ''../media/B3_x.png''\<rparr>]),
      (''xl/drawings/_rels/drawing2.xml.rels'',
         Relationships [\<lparr>rel_Type = ''http://schemas.openxmlformats.org/officeDocument/2006/relationships/image'',
                          rel_Id = ''rId1'', rel_Target = ''../media/x.png''\<rparr>]),
      (''xl/drawings/drawing1.xml'',
         Drawing [\<lparr>from_col = 0, from_row = 1, blip = Some (Some ''rId1'')\<rparr>]),
      (''xl/drawings/drawing2.xml'',
         Drawing [\<lparr>from_col = 1, from_row = 2, blip = Some (Some ''rId1'')\<rparr>]),
      (''xl/media/B3_x.png'', Media ''png1''),
      (''xl/media/x.png'', Media ''png2'')]
     = Inr \<lparr>saved = [''S_A2_B3_x.png'', ''S_A2_B3_x.png''],
            image_map = [((''S'', 2), [''json_output/image/S_A2_B3_x.png'']),
                         ((''S_A2'', 3), [''json_output/image/S_A2_B3_x.png''])]\<rparr>"
    by code_simp
qed (simp_all add: melt_eval records_def image_urls_def joins_def)


end
